theory Spec2Isabelle
  imports Complex_Main
begin

section \<open>Python values used by cartesian\_circle.py\<close>

text \<open>
  Python exceptions. The statements of the file raise IndexError (a string index past
  the end), KeyError (a missing dict key), ZeroDivisionError (a float division by
  zero), OverflowError (an int too large to convert to float) and ValueError
  (\<open>math.cos\<close> or \<open>math.sin\<close> of an infinity); ValueError is also Python's exception
  for an argument of an inappropriate value. MoveItError stands for whatever a method
  of the collaborator raises.
\<close>

datatype py_error =
  KeyError | IndexError | ZeroDivisionError | OverflowError | ValueError | MoveItError

text \<open>
  A Python float: a finite double, given by the real number it denotes (the two zeros
  are one value, as for Python's \<open>==\<close>), an infinity, or a NaN.
\<close>

datatype pyfloat = Finite real | PosInf | NegInf | NaN

text \<open>
  What the platform contributes to float arithmetic is a parameter of the model: the
  float that an exact real result is rounded to (an infinity when it is past the
  largest double), and the values \<open>math.cos\<close> and \<open>math.sin\<close> return on a finite
  argument. Nothing is assumed of it in the definitions. What does not depend on
  rounding is written out: the operations on infinities and NaN, the exceptions, and
  that adding or subtracting zero, multiplying by zero and dividing zero are exact.
\<close>

record float_arith =
  rnd :: "real \<Rightarrow> pyfloat"
  libm_cos :: "real \<Rightarrow> real"
  libm_sin :: "real \<Rightarrow> real"

text \<open>\<open>a + b\<close> on floats.\<close>

fun fl_add :: "float_arith \<Rightarrow> pyfloat \<Rightarrow> pyfloat \<Rightarrow> pyfloat" where
  "fl_add fa NaN b = NaN"
| "fl_add fa a NaN = NaN"
| "fl_add fa (Finite x) (Finite y) =
     (if y = 0 then Finite x else if x = 0 then Finite y else rnd fa (x + y))"
| "fl_add fa PosInf NegInf = NaN"
| "fl_add fa NegInf PosInf = NaN"
| "fl_add fa PosInf b = PosInf"
| "fl_add fa NegInf b = NegInf"
| "fl_add fa a PosInf = PosInf"
| "fl_add fa a NegInf = NegInf"

text \<open>\<open>a - b\<close> on floats.\<close>

fun fl_sub :: "float_arith \<Rightarrow> pyfloat \<Rightarrow> pyfloat \<Rightarrow> pyfloat" where
  "fl_sub fa NaN b = NaN"
| "fl_sub fa a NaN = NaN"
| "fl_sub fa (Finite x) (Finite y) =
     (if y = 0 then Finite x else if x = 0 then Finite (- y) else rnd fa (x - y))"
| "fl_sub fa PosInf PosInf = NaN"
| "fl_sub fa NegInf NegInf = NaN"
| "fl_sub fa PosInf b = PosInf"
| "fl_sub fa NegInf b = NegInf"
| "fl_sub fa a PosInf = NegInf"
| "fl_sub fa a NegInf = PosInf"

text \<open>\<open>a * b\<close> on floats: an overflow gives an infinity, never an exception.\<close>

fun fl_mul :: "float_arith \<Rightarrow> pyfloat \<Rightarrow> pyfloat \<Rightarrow> pyfloat" where
  "fl_mul fa NaN b = NaN"
| "fl_mul fa a NaN = NaN"
| "fl_mul fa (Finite x) (Finite y) =
     (if x = 0 \<or> y = 0 then Finite 0 else rnd fa (x * y))"
| "fl_mul fa (Finite x) PosInf = (if x = 0 then NaN else if 0 < x then PosInf else NegInf)"
| "fl_mul fa (Finite x) NegInf = (if x = 0 then NaN else if 0 < x then NegInf else PosInf)"
| "fl_mul fa PosInf (Finite y) = (if y = 0 then NaN else if 0 < y then PosInf else NegInf)"
| "fl_mul fa NegInf (Finite y) = (if y = 0 then NaN else if 0 < y then NegInf else PosInf)"
| "fl_mul fa PosInf PosInf = PosInf"
| "fl_mul fa PosInf NegInf = NegInf"
| "fl_mul fa NegInf PosInf = NegInf"
| "fl_mul fa NegInf NegInf = PosInf"

text \<open>\<open>a / b\<close> on floats: a zero divisor raises ZeroDivisionError, whatever \<open>a\<close> is.\<close>

fun fl_truediv :: "float_arith \<Rightarrow> pyfloat \<Rightarrow> pyfloat \<Rightarrow> py_error + pyfloat" where
  "fl_truediv fa a (Finite y) =
     (if y = 0 then Inl ZeroDivisionError
      else case a of
             NaN \<Rightarrow> Inr NaN
           | PosInf \<Rightarrow> Inr (if 0 < y then PosInf else NegInf)
           | NegInf \<Rightarrow> Inr (if 0 < y then NegInf else PosInf)
           | Finite x \<Rightarrow> Inr (if x = 0 then Finite 0 else rnd fa (x / y)))"
| "fl_truediv fa a NaN = Inr NaN"
| "fl_truediv fa (Finite x) b = Inr (Finite 0)"
| "fl_truediv fa a b = Inr NaN"

text \<open>
  \<open>math.cos\<close> and \<open>math.sin\<close>: a math domain error (ValueError) on an infinity, NaN on
  NaN, and a finite value on a finite argument.
\<close>

fun fl_cos :: "float_arith \<Rightarrow> pyfloat \<Rightarrow> py_error + pyfloat" where
  "fl_cos fa (Finite x) = Inr (Finite (libm_cos fa x))"
| "fl_cos fa NaN = Inr NaN"
| "fl_cos fa a = Inl ValueError"

fun fl_sin :: "float_arith \<Rightarrow> pyfloat \<Rightarrow> py_error + pyfloat" where
  "fl_sin fa (Finite x) = Inr (Finite (libm_sin fa x))"
| "fl_sin fa NaN = Inr NaN"
| "fl_sin fa a = Inl ValueError"

text \<open>
  The conversion of an int operand of a float operation: OverflowError when the int
  rounds to \<open>2 ^ 1024\<close> or more, that is from \<open>2 ^ 1024 - 2 ^ 970\<close> on; exact up to
  \<open>2 ^ 53\<close>; rounded in between.
\<close>

definition fl_of_int :: "float_arith \<Rightarrow> int \<Rightarrow> py_error + pyfloat" where
  "fl_of_int fa n =
     (if 2 ^ 1024 - 2 ^ 970 \<le> \<bar>n\<bar> then Inl OverflowError
      else if \<bar>n\<bar> \<le> 2 ^ 53 then Inr (Finite (real_of_int n))
      else Inr (rnd fa (real_of_int n)))"

text \<open>\<open>a >= b\<close> on floats: false as soon as one side is NaN.\<close>

fun fl_ge :: "pyfloat \<Rightarrow> pyfloat \<Rightarrow> bool" where
  "fl_ge NaN b = False"
| "fl_ge a NaN = False"
| "fl_ge (Finite x) (Finite y) = (y \<le> x)"
| "fl_ge PosInf b = True"
| "fl_ge a NegInf = True"
| "fl_ge a b = False"

text \<open>\<open>math.pi\<close>, the double \<open>0x1.921fb54442d18p+1\<close>.\<close>

definition math_pi :: real where
  "math_pi = 884279719003555 / 2 ^ 48"

text \<open>\<open>geometry_msgs.msg.Pose\<close>: a \<open>Point\<close> and a \<open>Quaternion\<close>, all fields float64.\<close>

record point =
  pos_x :: pyfloat
  pos_y :: pyfloat
  pos_z :: pyfloat

record quaternion =
  ori_x :: pyfloat
  ori_y :: pyfloat
  ori_z :: pyfloat
  ori_w :: pyfloat

record pose =
  position :: point
  orientation :: quaternion

text \<open>
  Pose objects are mutable and held by reference, so they live in a store: the object
  at address \<open>p\<close> of the heap \<open>h\<close> is \<open>h ! p\<close>, and a new object takes the next free
  address \<open>length h\<close>. A pose owns its position and its orientation.
\<close>

type_synonym addr = nat
type_synonym heap = "pose list"

text \<open>\<open>copy.deepcopy(p)\<close>: a new object with the fields of \<open>p\<close>, sharing nothing with it.\<close>

definition deepcopy :: "heap \<Rightarrow> addr \<Rightarrow> addr \<times> heap" where
  "deepcopy h p = (length h, h @ [h ! p])"

text \<open>The assignments \<open>w.position.x = v\<close>, \<open>w.position.y = v\<close>, \<open>w.position.z = v\<close>.\<close>

definition set_position_x :: "heap \<Rightarrow> addr \<Rightarrow> pyfloat \<Rightarrow> heap" where
  "set_position_x h w v = h[w := (h ! w)\<lparr>position := (position (h ! w))\<lparr>pos_x := v\<rparr>\<rparr>]"

definition set_position_y :: "heap \<Rightarrow> addr \<Rightarrow> pyfloat \<Rightarrow> heap" where
  "set_position_y h w v = h[w := (h ! w)\<lparr>position := (position (h ! w))\<lparr>pos_y := v\<rparr>\<rparr>]"

definition set_position_z :: "heap \<Rightarrow> addr \<Rightarrow> pyfloat \<Rightarrow> heap" where
  "set_position_z h w v = h[w := (h ! w)\<lparr>position := (position (h ! w))\<lparr>pos_z := v\<rparr>\<rparr>]"

text \<open>\<open>s[k]\<close> on a string with a literal index \<open>k \<ge> 0\<close>: IndexError past the end.\<close>

definition str_index :: "string \<Rightarrow> nat \<Rightarrow> py_error + char" where
  "str_index s k = (if k < length s then Inr (s ! k) else Inl IndexError)"

text \<open>\<open>d[k]\<close> on a dict: KeyError on a missing key.\<close>

definition dict_get :: "('k \<rightharpoonup> 'v) \<Rightarrow> 'k \<Rightarrow> py_error + 'v" where
  "dict_get d k = (case d k of None \<Rightarrow> Inl KeyError | Some v \<Rightarrow> Inr v)"

text \<open>Line 24: \<open>axis = {"x": 0, "y": 1, "z": 2}\<close>.\<close>

definition axis :: "char \<rightharpoonup> nat" where
  "axis = [CHR ''x'' \<mapsto> 0, CHR ''y'' \<mapsto> 1, CHR ''z'' \<mapsto> 2]"

section \<open>\_build\_waypoints\<close>

text \<open>The list \<open>[p.x, p.y, p.z]\<close> of a point, indexed by axis number.\<close>

definition coords :: "point \<Rightarrow> pyfloat list" where
  "coords p = [pos_x p, pos_y p, pos_z p]"

text \<open>
  Lines 28 to 31: the list \<open>[x, y, z]\<close> of the start position, then
  \<open>centre[axis[a]] -= radius\<close>, a float subtraction.
\<close>

definition centre_of ::
  "float_arith \<Rightarrow> pose \<Rightarrow> pyfloat \<Rightarrow> char \<Rightarrow> py_error + pyfloat list" where
  "centre_of fa sp radius a =
     (let centre = coords (position sp)
      in case dict_get axis a of
           Inl e \<Rightarrow> Inl e
         | Inr ka \<Rightarrow> Inr (centre[ka := fl_sub fa (centre ! ka) radius]))"

text \<open>
  Line 36: \<open>theta = 2.0 * math.pi * i / n_points\<close>, evaluated from the left:
  \<open>2.0 * math.pi\<close>, times the int \<open>i\<close> converted to float, divided by the int
  \<open>n_points\<close> converted to float.
\<close>

definition theta_of :: "float_arith \<Rightarrow> int \<Rightarrow> int \<Rightarrow> py_error + pyfloat" where
  "theta_of fa i n_points =
     (let two_pi = fl_mul fa (Finite 2) (Finite math_pi)
      in case fl_of_int fa i of
           Inl e \<Rightarrow> Inl e
         | Inr fi \<Rightarrow>
            (let t = fl_mul fa two_pi fi
             in case fl_of_int fa n_points of
                  Inl e \<Rightarrow> Inl e
                | Inr fn \<Rightarrow> fl_truediv fa t fn))"

text \<open>
  Lines 36 to 46, one pass of the loop for the index \<open>i\<close>. The state is the heap and
  the list \<open>waypoints\<close> (of references) built so far. In lines 40 and 41 the right-hand
  side is evaluated before the subscript \<open>axis[a]\<close>, \<open>axis[b]\<close> of the target.
\<close>

definition loop_body ::
  "float_arith \<Rightarrow> addr \<Rightarrow> pyfloat \<Rightarrow> int \<Rightarrow> char \<Rightarrow> char \<Rightarrow> pyfloat list \<Rightarrow> int
     \<Rightarrow> heap \<times> addr list \<Rightarrow> py_error + heap \<times> addr list" where
  "loop_body fa start_pose radius n_points a b centre i st =
     (case st of (h, waypoints) \<Rightarrow>
      case theta_of fa i n_points of
        Inl e \<Rightarrow> Inl e
      | Inr theta \<Rightarrow>
         (case deepcopy h start_pose of (w, h1) \<Rightarrow>
          case fl_cos fa theta of
            Inl e \<Rightarrow> Inl e
          | Inr c \<Rightarrow>
             (case dict_get axis a of
                Inl e \<Rightarrow> Inl e
              | Inr ka \<Rightarrow>
                 (let delta = [Finite 0, Finite 0, Finite 0][ka := fl_mul fa radius c]
                  in case fl_sin fa theta of
                       Inl e \<Rightarrow> Inl e
                     | Inr s \<Rightarrow>
                        (case dict_get axis b of
                           Inl e \<Rightarrow> Inl e
                         | Inr kb \<Rightarrow>
                            (let delta = delta[kb := fl_mul fa radius s];
                                 h2 = set_position_x h1 w (fl_add fa (centre ! 0) (delta ! 0));
                                 h3 = set_position_y h2 w (fl_add fa (centre ! 1) (delta ! 1));
                                 h4 = set_position_z h3 w (fl_add fa (centre ! 2) (delta ! 2))
                             in Inr (h4, waypoints @ [w])))))))"

text \<open>A \<open>for\<close> loop over a list of indices; an exception in the body ends it.\<close>

fun for_loop :: "('i \<Rightarrow> 's \<Rightarrow> py_error + 's) \<Rightarrow> 'i list \<Rightarrow> 's \<Rightarrow> py_error + 's" where
  "for_loop body [] st = Inr st"
| "for_loop body (i # is) st =
     (case body i st of Inl e \<Rightarrow> Inl e | Inr st' \<Rightarrow> for_loop body is st')"

text \<open>
  \<open>_build_waypoints(start_pose, radius, n_points, plane)\<close>. \<open>range(n_points + 1)\<close> is
  the list \<open>[0..n_points]\<close>, empty when \<open>n_points < 0\<close>. The result is the list of
  references and the heap after the call.
\<close>

definition build_waypoints ::
  "float_arith \<Rightarrow> heap \<Rightarrow> addr \<Rightarrow> pyfloat \<Rightarrow> int \<Rightarrow> string
     \<Rightarrow> py_error + addr list \<times> heap" where
  "build_waypoints fa h start_pose radius n_points plane =
     (case str_index plane 0 of
        Inl e \<Rightarrow> Inl e
      | Inr a \<Rightarrow>
         (case str_index plane 1 of
            Inl e \<Rightarrow> Inl e
          | Inr b \<Rightarrow>
             (case centre_of fa (h ! start_pose) radius a of
                Inl e \<Rightarrow> Inl e
              | Inr centre \<Rightarrow>
                 (case for_loop (loop_body fa start_pose radius n_points a b centre)
                         [0..n_points] (h, []) of
                    Inl e \<Rightarrow> Inl e
                  | Inr (h', waypoints) \<Rightarrow> Inr (waypoints, h')))))"

text \<open>The poses a reader of the list \<open>ws\<close> sees in the heap \<open>h\<close>.\<close>

definition poses_of :: "heap \<Rightarrow> addr list \<Rightarrow> pose list" where
  "poses_of h ws = map (\<lambda>w. h ! w) ws"

text \<open>The plane values the docstring of \<open>plan_cartesian_circle\<close> lists.\<close>

definition valid_plane :: "string \<Rightarrow> bool" where
  "valid_plane plane \<longleftrightarrow> plane = ''xy'' \<or> plane = ''yz'' \<or> plane = ''xz''"

section \<open>plan\_cartesian\_circle\<close>

text \<open>
  The \<open>MoveGroupCommander\<close> is not part of the repository; it is a parameter of the
  model: what each of its four methods answers (a value, or an exception), for any
  trajectory type. Every call made on it is recorded, in order.
\<close>

datatype 'traj call =
    Set_max_velocity_scaling_factor pyfloat
  | Get_current_pose
  | Compute_cartesian_path "pose list" pyfloat pyfloat bool
  | Execute 'traj bool

record 'traj move_group =
  mg_set_max_velocity_scaling_factor :: "pyfloat \<Rightarrow> py_error + unit"
  mg_get_current_pose :: "py_error + pose"
  mg_compute_cartesian_path ::
    "pose list \<Rightarrow> pyfloat \<Rightarrow> pyfloat \<Rightarrow> bool \<Rightarrow> py_error + 'traj \<times> pyfloat"
  mg_execute :: "'traj \<Rightarrow> bool \<Rightarrow> py_error + unit"

fun is_Execute :: "'traj call \<Rightarrow> bool" where
  "is_Execute (Execute t w) = True"
| "is_Execute c = False"

text \<open>
  \<open>plan_cartesian_circle\<close>, lines 79 to 94. The result is the record of the calls made
  on the collaborator and what the function returns or raises. The pose that
  \<open>get_current_pose().pose\<close> answers is a new object, the only one the call starts from.
\<close>

definition plan_cartesian_circle ::
  "float_arith \<Rightarrow> 'traj move_group \<Rightarrow> pyfloat \<Rightarrow> int \<Rightarrow> string \<Rightarrow> pyfloat \<Rightarrow> pyfloat
     \<Rightarrow> pyfloat \<Rightarrow> bool \<Rightarrow> pyfloat \<Rightarrow> 'traj call list \<times> (py_error + 'traj \<times> pyfloat)" where
  "plan_cartesian_circle fa move_group radius n_points plane eef_step jump_threshold
       velocity_scale execute completeness_threshold =
     (let log1 = [Set_max_velocity_scaling_factor velocity_scale]
      in case mg_set_max_velocity_scaling_factor move_group velocity_scale of
           Inl e \<Rightarrow> (log1, Inl e)
         | Inr u \<Rightarrow>
            (let log2 = log1 @ [Get_current_pose]
             in case mg_get_current_pose move_group of
                  Inl e \<Rightarrow> (log2, Inl e)
                | Inr start_pose \<Rightarrow>
                   (case build_waypoints fa [start_pose] 0 radius n_points plane of
                      Inl e \<Rightarrow> (log2, Inl e)
                    | Inr (ws, h) \<Rightarrow>
                       (let waypoints = poses_of h ws;
                            log3 = log2 @ [Compute_cartesian_path waypoints eef_step
                                             jump_threshold True]
                        in case mg_compute_cartesian_path move_group waypoints eef_step
                                  jump_threshold True of
                             Inl e \<Rightarrow> (log3, Inl e)
                           | Inr (traj, fraction) \<Rightarrow>
                              (if execute \<and> fl_ge fraction completeness_threshold
                               then (let log4 = log3 @ [Execute traj True]
                                     in case mg_execute move_group traj True of
                                          Inl e \<Rightarrow> (log4, Inl e)
                                        | Inr u \<Rightarrow> (log4, Inr (traj, fraction)))
                               else (log3, Inr (traj, fraction)))))))"

section \<open>Notions used in the statements\<close>

text \<open>
  The pose one pass of the loop leaves in its new object: the start pose with the three
  position fields assigned from the centre and the list \<open>delta\<close> (lines 38 to 45).
\<close>

definition new_pose :: "float_arith \<Rightarrow> pose \<Rightarrow> pyfloat list \<Rightarrow> pyfloat list \<Rightarrow> pose" where
  "new_pose fa sp centre delta =
     sp\<lparr>position := \<lparr>pos_x = fl_add fa (centre ! 0) (delta ! 0),
                        pos_y = fl_add fa (centre ! 1) (delta ! 1),
                        pos_z = fl_add fa (centre ! 2) (delta ! 2)\<rparr>\<rparr>"

text \<open>The list \<open>delta\<close> after lines 39 to 41, for the cosine \<open>c\<close> and the sine \<open>s\<close>.\<close>

definition delta_of ::
  "float_arith \<Rightarrow> pyfloat \<Rightarrow> nat \<Rightarrow> nat \<Rightarrow> pyfloat \<Rightarrow> pyfloat \<Rightarrow> pyfloat list" where
  "delta_of fa radius ka kb c s =
     [Finite 0, Finite 0, Finite 0][ka := fl_mul fa radius c, kb := fl_mul fa radius s]"

text \<open>
  A property of rounding to the nearest double: a power of two up to \<open>2 ^ 1023\<close> is a
  double, so an exact result of at most that magnitude is rounded to a finite double
  of at most that magnitude.
\<close>

definition rounding_bounded :: "float_arith \<Rightarrow> bool" where
  "rounding_bounded fa \<longleftrightarrow>
     (\<forall>k v. k \<le> (1023::nat) \<longrightarrow> \<bar>v\<bar> \<le> 2 ^ k \<longrightarrow> (\<exists>r. rnd fa v = Finite r \<and> \<bar>r\<bar> \<le> 2 ^ k))"

text \<open>
  A collaborator for the worked instances: every call returns normally, the current
  pose is \<open>p\<close>, and the path computation answers the number of waypoints it was given
  (as the trajectory) and the completion fraction \<open>fraction\<close>.
\<close>

definition stub_move_group :: "pose \<Rightarrow> pyfloat \<Rightarrow> nat move_group" where
  "stub_move_group p fraction =
     \<lparr>mg_set_max_velocity_scaling_factor = (\<lambda>v. Inr ()),
      mg_get_current_pose = Inr p,
      mg_compute_cartesian_path = (\<lambda>waypoints eef_step jump_threshold avoid_collisions.
                                     Inr (length waypoints, fraction)),
      mg_execute = (\<lambda>traj wait. Inr ())\<rparr>"

text \<open>A pose at a finite position, with the identity orientation.\<close>

definition pose_at :: "real \<Rightarrow> real \<Rightarrow> real \<Rightarrow> pose" where
  "pose_at px py pz =
     \<lparr>position = \<lparr>pos_x = Finite px, pos_y = Finite py, pos_z = Finite pz\<rparr>,
      orientation = \<lparr>ori_x = Finite 0, ori_y = Finite 0, ori_z = Finite 0, ori_w = Finite 1\<rparr>\<rparr>"

text \<open>
  The Euclidean distance in 3D between a point and a centre given as a list, as a real
  number; there is none when a coordinate is not finite.
\<close>

definition distance3 :: "point \<Rightarrow> pyfloat list \<Rightarrow> real option" where
  "distance3 p c =
     (case (pos_x p, pos_y p, pos_z p, c ! 0, c ! 1, c ! 2) of
        (Finite px, Finite py, Finite pz, Finite cx, Finite cy, Finite cz) \<Rightarrow>
          Some (sqrt ((px - cx)\<^sup>2 + (py - cy)\<^sup>2 + (pz - cz)\<^sup>2))
      | _ \<Rightarrow> None)"

text \<open>\<open>math.sin(2.0 * math.pi)\<close>, the double \<open>-0x1.1a62633145c07p-52\<close>.\<close>

definition sin_two_pi :: real where
  "sin_two_pi = - 4967757600021511 / 2 ^ 104"

text \<open>
  Double arithmetic as far as the worked runs need it. These runs have radius \<open>1.0\<close>
  or \<open>0.0\<close>, the start position \<open>(0, 0, 0)\<close> or \<open>(2 ^ 60, 0, 0)\<close>, and \<open>n_points = 1\<close> or
  an \<open>n_points\<close> at which no pass of the loop is completed (\<open>0\<close>, \<open>-3\<close>, \<open>2 ^ 1024\<close>).
  Every exact result in them is a double but \<open>2 ^ 60 - 1\<close> and \<open>2 ^ 60 + 1\<close>, which
  round to \<open>2 ^ 60\<close>; the angles are \<open>0.0\<close> and \<open>2.0 * math.pi\<close>, where \<open>math.cos\<close>
  returns \<open>1.0\<close> and \<open>math.sin\<close> returns \<open>0.0\<close> and \<open>-2.4492935982947064e-16\<close>.
\<close>

definition double_arith :: float_arith where
  "double_arith =
     \<lparr>rnd = (\<lambda>v. if v = 2 ^ 60 - 1 \<or> v = 2 ^ 60 + 1 then Finite (2 ^ 60) else Finite v),
      libm_cos = (\<lambda>x. if x = 0 \<or> x = 2 * math_pi then 1 else cos x),
      libm_sin = (\<lambda>x. if x = 0 then 0 else if x = 2 * math_pi then sin_two_pi else sin x)\<rparr>"

text \<open>The doubles written \<open>0.95\<close> and \<open>0.97\<close>.\<close>

definition double_0_95 :: real where
  "double_0_95 = 4278419646001971 / 2 ^ 52"

definition double_0_97 :: real where
  "double_0_97 = 4368491638549381 / 2 ^ 52"

section \<open>Float operations that do not round\<close>

lemma fl_add_zero [simp]: "fl_add fa a (Finite 0) = a"
  by (cases a) simp_all

lemma fl_sub_zero [simp]: "fl_sub fa a (Finite 0) = a"
  by (cases a) simp_all

lemma fl_mul_zero_finite [simp]: "fl_mul fa (Finite 0) (Finite c) = Finite 0"
  by simp

lemma fl_truediv_by_zero [simp]: "fl_truediv fa t (Finite 0) = Inl ZeroDivisionError"
  by simp

lemma fl_mul_by_zero_cases: "fl_mul fa t (Finite 0) = NaN \<or> fl_mul fa t (Finite 0) = Finite 0"
  by (cases t) simp_all

lemma fl_of_int_small:
  assumes "\<bar>n\<bar> \<le> 2 ^ 53"
  shows "fl_of_int fa n = Inr (Finite (real_of_int n))"
proof -
  have "(2::int) ^ 53 < 2 ^ 1024 - 2 ^ 970" by simp
  with assms have "\<not> 2 ^ 1024 - 2 ^ 970 \<le> \<bar>n\<bar>" by linarith
  with assms show ?thesis by (simp add: fl_of_int_def)
qed

lemma fl_of_int_overflow:
  assumes "2 ^ 1024 - 2 ^ 970 \<le> \<bar>n\<bar>"
  shows "fl_of_int fa n = Inl OverflowError"
  using assms by (simp add: fl_of_int_def)

lemma fl_cos_sin_finite:
  "fl_cos fa (Finite t) = Inr (Finite (libm_cos fa t))"
  "fl_sin fa (Finite t) = Inr (Finite (libm_sin fa t))"
  by simp_all

section \<open>The angle\<close>

lemma theta_of_zero_divisor: "theta_of fa 0 0 = Inl ZeroDivisionError"
  by (simp add: theta_of_def Let_def fl_of_int_def)

lemma theta_of_overflow:
  assumes "\<bar>i\<bar> \<le> 2 ^ 53" "2 ^ 1024 - 2 ^ 970 \<le> \<bar>n_points\<bar>"
  shows "theta_of fa i n_points = Inl OverflowError"
  by (simp add: theta_of_def Let_def fl_of_int_small [OF assms(1)]
        fl_of_int_overflow [OF assms(2)])

text \<open>The first pass, \<open>i = 0\<close>: the angle is \<open>0.0\<close>, or NaN when \<open>2.0 * math.pi\<close> is no number.\<close>

lemma theta_of_first:
  assumes "1 \<le> n_points" "n_points \<le> 2 ^ 53"
  shows "theta_of fa 0 n_points = Inr NaN \<or> theta_of fa 0 n_points = Inr (Finite 0)"
proof -
  have n: "fl_of_int fa n_points = Inr (Finite (real_of_int n_points))"
    using assms by (intro fl_of_int_small) simp
  have z: "fl_of_int fa 0 = Inr (Finite 0)"
    using fl_of_int_small [of 0 fa] by simp
  have nz: "real_of_int n_points \<noteq> 0" using assms(1) by simp
  show ?thesis
    using fl_mul_by_zero_cases [of fa "fl_mul fa (Finite 2) (Finite math_pi)"] nz
    by (auto simp: theta_of_def Let_def n z)
qed

lemma theta_of_finite:
  assumes "rounding_bounded fa" "0 \<le> i" "i \<le> n_points" "1 \<le> n_points" "n_points \<le> 2 ^ 53"
  shows "\<exists>t. theta_of fa i n_points = Inr (Finite t)"
proof -
  have rb: "\<exists>r. rnd fa v = Finite r \<and> \<bar>r\<bar> \<le> 2 ^ k" if "k \<le> 1023" "\<bar>v\<bar> \<le> 2 ^ k" for k :: nat and v
    using assms(1) that unfolding rounding_bounded_def by blast
  have pi_bound: "\<bar>2 * math_pi\<bar> \<le> 2 ^ 3"
    by (simp add: math_pi_def)
  obtain r0 where r0: "rnd fa (2 * math_pi) = Finite r0" "\<bar>r0\<bar> \<le> 2 ^ 3"
    using rb [of 3 "2 * math_pi"] pi_bound by auto
  have two_pi: "fl_mul fa (Finite 2) (Finite math_pi) = Finite r0"
    using r0(1) by (simp add: math_pi_def)
  have fi: "fl_of_int fa i = Inr (Finite (real_of_int i))"
    using assms(2,3,5) by (intro fl_of_int_small) simp
  have fn: "fl_of_int fa n_points = Inr (Finite (real_of_int n_points))"
    using assms(4,5) by (intro fl_of_int_small) simp
  have ib: "\<bar>real_of_int i\<bar> \<le> 2 ^ 53"
  proof -
    have "i \<le> 2 ^ 53" using assms(3,5) by simp
    then have "real_of_int i \<le> real_of_int (2 ^ 53)" by (rule of_int_le_iff [THEN iffD2])
    then show ?thesis using assms(2) by simp
  qed
  have prod_bound: "\<bar>r0 * real_of_int i\<bar> \<le> 2 ^ 56"
  proof -
    have "\<bar>r0 * real_of_int i\<bar> = \<bar>r0\<bar> * \<bar>real_of_int i\<bar>" by (rule abs_mult)
    also have "\<dots> \<le> 2 ^ 3 * 2 ^ 53"
      by (rule mult_mono [OF r0(2) ib]) simp_all
    also have "\<dots> = (2::real) ^ 56" by simp
    finally show ?thesis .
  qed
  obtain r1 where r1: "fl_mul fa (Finite r0) (Finite (real_of_int i)) = Finite r1"
    "\<bar>r1\<bar> \<le> 2 ^ 56"
  proof (cases "r0 = 0 \<or> real_of_int i = 0")
    case True
    then have "fl_mul fa (Finite r0) (Finite (real_of_int i)) = Finite 0" by simp
    then show ?thesis using that [of 0] by simp
  next
    case False
    obtain r where "rnd fa (r0 * real_of_int i) = Finite r" "\<bar>r\<bar> \<le> 2 ^ 56"
      using rb [of 56 "r0 * real_of_int i"] prod_bound by auto
    with False show ?thesis using that [of r] by simp
  qed
  have npos: "1 \<le> real_of_int n_points" using assms(4) by simp
  have quot_bound: "\<bar>r1 / real_of_int n_points\<bar> \<le> 2 ^ 56"
  proof -
    have "\<bar>r1 / real_of_int n_points\<bar> = \<bar>r1\<bar> / real_of_int n_points"
      using npos by simp
    also have "\<dots> \<le> \<bar>r1\<bar> / 1"
      by (rule divide_left_mono) (use npos in simp_all)
    finally show ?thesis using r1(2) by simp
  qed
  have "\<exists>t. fl_truediv fa (Finite r1) (Finite (real_of_int n_points)) = Inr (Finite t)"
  proof (cases "r1 = 0")
    case True
    then show ?thesis using npos by simp
  next
    case False
    obtain r where "rnd fa (r1 / real_of_int n_points) = Finite r"
      using rb [of 56 "r1 / real_of_int n_points"] quot_bound by auto
    with False show ?thesis using npos by simp
  qed
  then show ?thesis
    by (simp only: theta_of_def Let_def two_pi fi fn r1(1) sum.case)
qed

section \<open>One pass of the loop\<close>

lemma loop_body_returns:
  assumes "theta_of fa i n_points = Inr theta" "fl_cos fa theta = Inr c" "fl_sin fa theta = Inr s"
    and "axis a = Some ka" "axis b = Some kb"
  shows "loop_body fa start_pose radius n_points a b centre i (h, ws) =
           Inr (h @ [new_pose fa (h ! start_pose) centre (delta_of fa radius ka kb c s)],
                ws @ [length h])"
  using assms
  by (simp add: loop_body_def deepcopy_def dict_get_def Let_def
        set_position_x_def set_position_y_def set_position_z_def new_pose_def delta_of_def)

lemma loop_body_Inr:
  assumes "loop_body fa start_pose radius n_points a b centre i (h, ws) = Inr st"
    and "axis a = Some ka"
  shows "\<exists>theta c s kb.
           theta_of fa i n_points = Inr theta \<and> fl_cos fa theta = Inr c
         \<and> fl_sin fa theta = Inr s \<and> axis b = Some kb
         \<and> st = (h @ [new_pose fa (h ! start_pose) centre (delta_of fa radius ka kb c s)],
                 ws @ [length h])"
proof -
  from assms(1) obtain theta where t: "theta_of fa i n_points = Inr theta"
    by (auto simp: loop_body_def split: sum.splits)
  from assms(1) t obtain c where c: "fl_cos fa theta = Inr c"
    by (auto simp: loop_body_def deepcopy_def split: sum.splits)
  from assms(1) t c assms(2) obtain s where s: "fl_sin fa theta = Inr s"
    by (auto simp: loop_body_def deepcopy_def dict_get_def Let_def split: sum.splits)
  from assms(1) t c s assms(2) obtain kb where kb: "axis b = Some kb"
    by (auto simp: loop_body_def deepcopy_def dict_get_def Let_def split: sum.splits option.splits)
  from assms(1) have "st = (h @ [new_pose fa (h ! start_pose) centre
                                   (delta_of fa radius ka kb c s)], ws @ [length h])"
    by (simp only: loop_body_returns [OF t c s assms(2) kb] sum.inject)
  with t c s kb show ?thesis by blast
qed

lemma loop_body_theta_error:
  assumes "theta_of fa i n_points = Inl e"
  shows "loop_body fa start_pose radius n_points a b centre i (h, ws) = Inl e"
  using assms by (simp add: loop_body_def)

lemma loop_body_bad_second:
  assumes "theta_of fa i n_points = Inr theta" "theta = NaN \<or> theta = Finite t"
    and "axis a = Some ka" "axis b = None"
  shows "loop_body fa start_pose radius n_points a b centre i (h, ws) = Inl KeyError"
  using assms
  by (auto simp: loop_body_def deepcopy_def dict_get_def Let_def)

section \<open>The whole loop\<close>

lemma upt_shift: "[n ..< n + Suc k] = n # [Suc n ..< Suc n + k]"
proof -
  have "n < n + Suc k" by simp
  then have "[n ..< n + Suc k] = n # [Suc n ..< n + Suc k]" by (rule upt_conv_Cons)
  then show ?thesis by (simp only: add_Suc add_Suc_right)
qed

text \<open>
  What is known when the loop ends without an exception: one new object per index,
  appended to a heap whose old part is untouched, each the value of its pass.
\<close>

lemma for_loop_Inr:
  assumes "for_loop (loop_body fa start_pose radius n_points a b centre) is (h, ws) =
             Inr (h', ws')"
    and "start_pose < length h" "axis a = Some ka"
  shows "ws' = ws @ [length h ..< length h + length is]
       \<and> length h' = length h + length is
       \<and> take (length h) h' = h
       \<and> (\<forall>k < length is. \<exists>theta c s kb.
              theta_of fa (is ! k) n_points = Inr theta \<and> fl_cos fa theta = Inr c
            \<and> fl_sin fa theta = Inr s \<and> axis b = Some kb
            \<and> h' ! (length h + k) =
                new_pose fa (h ! start_pose) centre (delta_of fa radius ka kb c s))"
  using assms(1,2)
proof (induction "is" arbitrary: h ws)
  case Nil
  then show ?case by simp
next
  case (Cons i "is")
  from Cons.prems(1) obtain st where
    st: "loop_body fa start_pose radius n_points a b centre i (h, ws) = Inr st"
    and rest: "for_loop (loop_body fa start_pose radius n_points a b centre) is st =
                 Inr (h', ws')"
    by (auto split: sum.splits)
  from loop_body_Inr [OF st assms(3)] obtain theta c s kb where
    pass: "theta_of fa i n_points = Inr theta" "fl_cos fa theta = Inr c"
      "fl_sin fa theta = Inr s" "axis b = Some kb"
    and st_eq: "st = (h @ [new_pose fa (h ! start_pose) centre
                             (delta_of fa radius ka kb c s)], ws @ [length h])"
    by blast
  let ?w = "new_pose fa (h ! start_pose) centre (delta_of fa radius ka kb c s)"
  have lt: "start_pose < length (h @ [?w])" using Cons.prems(2) by simp
  have same: "(h @ [?w]) ! start_pose = h ! start_pose"
    using Cons.prems(2) by (simp add: nth_append)
  note IH = Cons.IH [OF rest [unfolded st_eq] lt]
  have ws_eq: "ws' = ws @ [length h ..< length h + length (i # is)]"
    using IH upt_shift [of "length h" "length is"] by simp
  have len: "length h' = length h + length (i # is)"
    using IH by simp
  have tk1: "take (Suc (length h)) h' = h @ [?w]"
    using IH by simp
  have tk: "take (length h) h' = h"
  proof -
    have "take (length h) (take (Suc (length h)) h') = take (length h) (h @ [?w])"
      by (simp only: tk1)
    then show ?thesis by simp
  qed
  have first: "h' ! length h = ?w"
  proof -
    have "h' ! length h = take (Suc (length h)) h' ! length h" by simp
    also have "\<dots> = ?w" by (simp only: tk1) simp
    finally show ?thesis .
  qed
  have each: "\<exists>theta c s kb.
              theta_of fa ((i # is) ! k) n_points = Inr theta \<and> fl_cos fa theta = Inr c
            \<and> fl_sin fa theta = Inr s \<and> axis b = Some kb
            \<and> h' ! (length h + k) =
                new_pose fa (h ! start_pose) centre (delta_of fa radius ka kb c s)"
    if k: "k < length (i # is)" for k
  proof (cases k)
    case 0
    with pass first show ?thesis by auto
  next
    case (Suc j)
    with k have j: "j < length is" by simp
    from IH j obtain theta' c' s' kb' where
      "theta_of fa (is ! j) n_points = Inr theta'" "fl_cos fa theta' = Inr c'"
      "fl_sin fa theta' = Inr s'" "axis b = Some kb'"
      "h' ! (length (h @ [?w]) + j) =
         new_pose fa ((h @ [?w]) ! start_pose) centre (delta_of fa radius ka kb' c' s')"
      by blast
    then show ?thesis
      unfolding same using Suc by auto
  qed
  show ?case using ws_eq len tk each by blast
qed

text \<open>The loop ends without an exception when every pass has its angle, cosine and sine.\<close>

lemma for_loop_returns:
  assumes "\<forall>i \<in> set is. \<exists>t. theta_of fa i n_points = Inr (Finite t)"
    and "axis a = Some ka" "axis b = Some kb"
  shows "\<exists>h' ws'. for_loop (loop_body fa start_pose radius n_points a b centre) is (h, ws) =
           Inr (h', ws')"
  using assms(1)
proof (induction "is" arbitrary: h ws)
  case Nil
  then show ?case by simp
next
  case (Cons i "is")
  then obtain t where t: "theta_of fa i n_points = Inr (Finite t)" by auto
  have pass: "loop_body fa start_pose radius n_points a b centre i (h, ws) =
           Inr (h @ [new_pose fa (h ! start_pose) centre
                       (delta_of fa radius ka kb (Finite (libm_cos fa t))
                          (Finite (libm_sin fa t)))],
                ws @ [length h])"
    by (rule loop_body_returns [OF t fl_cos_sin_finite assms(2,3)])
  from Cons.prems have "\<forall>i \<in> set is. \<exists>t. theta_of fa i n_points = Inr (Finite t)" by simp
  from Cons.IH [OF this] show ?case
    by (simp only: for_loop.simps pass sum.case)
qed

section \<open>The call\<close>

lemma plane_indices:
  assumes "2 \<le> length plane"
  shows "str_index plane 0 = Inr (plane ! 0)" "str_index plane 1 = Inr (plane ! 1)"
  using assms by (auto simp: str_index_def)

lemma centre_of_closed:
  assumes "axis a = Some ka"
  shows "centre_of fa sp radius a =
           Inr ((coords (position sp))[ka := fl_sub fa (coords (position sp) ! ka) radius])"
  using assms by (simp add: centre_of_def dict_get_def Let_def)

lemma valid_plane_setup:
  assumes "valid_plane plane"
  obtains ka kb where "axis (plane ! 0) = Some ka" "axis (plane ! 1) = Some kb"
    "(ka, kb) \<in> {(0, 1), (1, 2), (0, 2)}" "2 \<le> length plane"
  using assms by (auto simp: valid_plane_def axis_def)

text \<open>The call in terms of its loop, once the plane has two characters and a first axis.\<close>

lemma build_waypoints_loop:
  assumes "2 \<le> length plane" "axis (plane ! 0) = Some ka"
  shows "build_waypoints fa h start_pose radius n_points plane =
           (case for_loop (loop_body fa start_pose radius n_points (plane ! 0) (plane ! 1)
                             ((coords (position (h ! start_pose)))
                                [ka := fl_sub fa (coords (position (h ! start_pose)) ! ka) radius]))
                   [0..n_points] (h, []) of
              Inl e \<Rightarrow> Inl e
            | Inr (h', waypoints) \<Rightarrow> Inr (waypoints, h'))"
  by (simp only: build_waypoints_def plane_indices [OF assms(1)]
        centre_of_closed [OF assms(2)] sum.case)

lemma build_waypoints_short_plane:
  assumes "length plane < 2"
  shows "build_waypoints fa h start_pose radius n_points plane = Inl IndexError"
  using assms by (auto simp: build_waypoints_def str_index_def)

lemma build_waypoints_bad_first:
  assumes "2 \<le> length plane" "axis (plane ! 0) = None"
  shows "build_waypoints fa h start_pose radius n_points plane = Inl KeyError"
proof -
  have c: "centre_of fa (h ! start_pose) radius (plane ! 0) = Inl KeyError"
    using assms(2) by (simp add: centre_of_def dict_get_def)
  show ?thesis
    by (simp only: build_waypoints_def plane_indices [OF assms(1)] c sum.case)
qed

lemma range_Cons: "0 \<le> n_points \<Longrightarrow> [0..n_points] = 0 # [1..n_points]"
  by (simp add: upto_rec1)

text \<open>An exception of the angle in the first pass is the exception of the call.\<close>

lemma build_waypoints_first_pass_error:
  assumes "2 \<le> length plane" "axis (plane ! 0) = Some ka" "0 \<le> n_points"
    and "loop_body fa start_pose radius n_points (plane ! 0) (plane ! 1)
           ((coords (position (h ! start_pose)))
              [ka := fl_sub fa (coords (position (h ! start_pose)) ! ka) radius])
           0 (h, []) = Inl e"
  shows "build_waypoints fa h start_pose radius n_points plane = Inl e"
  by (simp only: build_waypoints_loop [OF assms(1,2)] range_Cons [OF assms(3)]
        for_loop.simps assms(4) sum.case)

lemma build_waypoints_zero:
  assumes "2 \<le> length plane" "axis (plane ! 0) = Some ka"
  shows "build_waypoints fa h start_pose radius 0 plane = Inl ZeroDivisionError"
  by (rule build_waypoints_first_pass_error [OF assms])
    (simp_all add: loop_body_theta_error [OF theta_of_zero_divisor])

lemma build_waypoints_overflow:
  assumes "2 \<le> length plane" "axis (plane ! 0) = Some ka" "2 ^ 1024 - 2 ^ 970 \<le> n_points"
  shows "build_waypoints fa h start_pose radius n_points plane = Inl OverflowError"
proof -
  have pos: "0 \<le> n_points"
  proof -
    have "(0::int) \<le> 2 ^ 1024 - 2 ^ 970" by simp
    with assms(3) show ?thesis by linarith
  qed
  have "theta_of fa 0 n_points = Inl OverflowError"
    by (rule theta_of_overflow) (use assms(3) pos in simp_all)
  then show ?thesis
    by (intro build_waypoints_first_pass_error [OF assms(1,2) pos] loop_body_theta_error)
qed

lemma build_waypoints_bad_second:
  assumes "2 \<le> length plane" "axis (plane ! 0) = Some ka" "axis (plane ! 1) = None"
    and "1 \<le> n_points" "n_points \<le> 2 ^ 53"
  shows "build_waypoints fa h start_pose radius n_points plane = Inl KeyError"
proof -
  have pos: "0 \<le> n_points" using assms(4) by simp
  from theta_of_first [OF assms(4,5), of fa]
  obtain theta where t: "theta_of fa 0 n_points = Inr theta" "theta = NaN \<or> theta = Finite 0"
    by blast
  show ?thesis
    by (intro build_waypoints_first_pass_error [OF assms(1,2) pos]
          loop_body_bad_second [OF t assms(2,3)])
qed

lemma build_waypoints_negative:
  assumes "n_points < 0" "2 \<le> length plane" "axis (plane ! 0) = Some ka"
  shows "build_waypoints fa h start_pose radius n_points plane = Inr ([], h)"
proof -
  have e: "[0..n_points] = []" using assms(1) by simp
  show ?thesis
    by (simp only: build_waypoints_loop [OF assms(2,3)] e for_loop.simps sum.case prod.case)
qed

text \<open>What a call that returns has built.\<close>

lemma build_waypoints_Inr:
  assumes "build_waypoints fa h start_pose radius n_points plane = Inr (ws, h')"
    and "2 \<le> length plane" "axis (plane ! 0) = Some ka" "start_pose < length h"
  shows "ws = [length h ..< length h + length [0..n_points]]
       \<and> length h' = length h + length [0..n_points]
       \<and> take (length h) h' = h
       \<and> (\<forall>k < length [0..n_points]. \<exists>theta c s kb.
              theta_of fa ([0..n_points] ! k) n_points = Inr theta \<and> fl_cos fa theta = Inr c
            \<and> fl_sin fa theta = Inr s \<and> axis (plane ! 1) = Some kb
            \<and> h' ! (length h + k) =
                new_pose fa (h ! start_pose)
                  ((coords (position (h ! start_pose)))
                     [ka := fl_sub fa (coords (position (h ! start_pose)) ! ka) radius])
                  (delta_of fa radius ka kb c s))"
proof -
  from assms(1) have
    "for_loop (loop_body fa start_pose radius n_points (plane ! 0) (plane ! 1)
                 ((coords (position (h ! start_pose)))
                    [ka := fl_sub fa (coords (position (h ! start_pose)) ! ka) radius]))
       [0..n_points] (h, []) = Inr (h', ws)"
    by (auto simp: build_waypoints_loop [OF assms(2,3)] split: sum.splits)
  from for_loop_Inr [OF this assms(4,3)] show ?thesis by simp
qed

text \<open>A call on two axis characters returns when the angles stay finite.\<close>

lemma build_waypoints_returns:
  assumes "2 \<le> length plane" "axis (plane ! 0) = Some ka" "axis (plane ! 1) = Some kb"
    and "rounding_bounded fa" "1 \<le> n_points" "n_points \<le> 2 ^ 53"
  shows "\<exists>ws h'. build_waypoints fa h start_pose radius n_points plane = Inr (ws, h')"
proof -
  have "\<forall>i \<in> set [0..n_points]. \<exists>t. theta_of fa i n_points = Inr (Finite t)"
    using theta_of_finite [OF assms(4) _ _ assms(5,6)] by simp
  from for_loop_returns [OF this assms(2,3)]
  obtain h' ws' where
    "for_loop (loop_body fa start_pose radius n_points (plane ! 0) (plane ! 1)
                 ((coords (position (h ! start_pose)))
                    [ka := fl_sub fa (coords (position (h ! start_pose)) ! ka) radius]))
       [0..n_points] (h, []) = Inr (h', ws')"
    by blast
  then show ?thesis
    by (simp add: build_waypoints_loop [OF assms(1,2)])
qed

lemma power_two_reached:
  fixes k :: nat
  assumes "(2::real) ^ m - 1 \<le> 2 ^ k" "2 \<le> m"
  shows "(2::real) ^ m \<le> 2 ^ k"
proof (rule ccontr)
  assume "\<not> (2::real) ^ m \<le> 2 ^ k"
  then have "k < m" by (simp add: not_le)
  then have "k \<le> m - 1" by simp
  then have "(2::real) ^ k \<le> 2 ^ (m - 1)" by (intro power_increasing) simp_all
  moreover have "(2::real) ^ m = 2 * 2 ^ (m - 1)"
    using assms(2) by (cases m) simp_all
  moreover have "(2::real) \<le> 2 ^ (m - 1)"
    using power_increasing [of 1 "m - 1" "2::real"] assms(2) by simp
  ultimately show False using assms(1) by linarith
qed

lemma rounding_bounded_double: "rounding_bounded double_arith"
proof -
  have "\<exists>r. rnd double_arith v = Finite r \<and> \<bar>r\<bar> \<le> 2 ^ k" if v: "\<bar>v\<bar> \<le> 2 ^ k"
    for k :: nat and v :: real
  proof (cases "v = 2 ^ 60 - 1 \<or> v = 2 ^ 60 + 1")
    case False
    with v show ?thesis by (simp add: double_arith_def)
  next
    case True
    have "(2::real) ^ 60 - 1 \<le> 2 ^ k" using True v by auto
    then have "(2::real) ^ 60 \<le> 2 ^ k" by (rule power_two_reached) simp
    with True show ?thesis by (auto simp: double_arith_def)
  qed
  then show ?thesis by (simp add: rounding_bounded_def)
qed

section \<open>The new objects\<close>

lemma orientation_new_pose: "orientation (new_pose fa sp centre delta) = orientation sp"
  by (simp add: new_pose_def)

lemma position_new_pose:
  "pos_x (position (new_pose fa sp centre delta)) = fl_add fa (centre ! 0) (delta ! 0)"
  "pos_y (position (new_pose fa sp centre delta)) = fl_add fa (centre ! 1) (delta ! 1)"
  "pos_z (position (new_pose fa sp centre delta)) = fl_add fa (centre ! 2) (delta ! 2)"
  by (simp_all add: new_pose_def)

lemma update2_other:
  assumes "kc \<noteq> ka" "kc \<noteq> kb"
  shows "zs[ka := u, kb := v] ! kc = zs ! kc"
  using assms by simp

lemma delta_of_other:
  assumes "kc < 3" "kc \<noteq> ka" "kc \<noteq> kb"
  shows "delta_of fa radius ka kb c s ! kc = Finite 0"
proof -
  have "delta_of fa radius ka kb c s ! kc = [Finite 0, Finite 0, Finite 0] ! kc"
    unfolding delta_of_def by (rule update2_other [OF assms(2,3)])
  also have "\<dots> = Finite 0"
    using assms(1) by (cases kc rule: nat.exhaust) (auto simp: less_Suc_eq nth_Cons')
  finally show ?thesis .
qed

text \<open>The coordinate on an axis the plane does not name is the start pose's.\<close>

lemma new_pose_third_axis:
  assumes "kc < 3" "kc \<noteq> ka" "kc \<noteq> kb"
  shows "fl_add fa (((coords p)[ka := v]) ! kc) (delta_of fa radius ka kb c s ! kc) =
           coords p ! kc"
  using assms by (simp add: delta_of_other)

lemma delta_of_zero_radius:
  "delta_of fa (Finite 0) ka kb (Finite c) (Finite s) = [Finite 0, Finite 0, Finite 0]"
proof -
  have "[Finite 0, Finite 0, Finite 0][ka := Finite 0, kb := Finite 0] =
          [Finite 0, Finite 0, Finite (0::real)]"
    by (cases ka; cases kb) (auto simp: list_update_code split: nat.splits)
  then show ?thesis by (simp add: delta_of_def)
qed

lemma new_pose_zero_radius:
  "new_pose fa sp ((coords (position sp))[ka := fl_sub fa (coords (position sp) ! ka) (Finite 0)])
     (delta_of fa (Finite 0) ka kb (Finite c) (Finite s)) = sp"
proof -
  have c: "(coords (position sp))[ka := fl_sub fa (coords (position sp) ! ka) (Finite 0)] =
             coords (position sp)"
    by simp
  show ?thesis
    by (simp add: c delta_of_zero_radius new_pose_def coords_def)
qed

lemma coords_nth:
  "coords p ! 0 = pos_x p" "coords p ! 1 = pos_y p" "coords p ! 2 = pos_z p"
  by (simp_all add: coords_def)

lemma range_member:
  assumes "w \<in> set [m ..< m + n]"
  obtains k where "w = m + k" "k < n"
  using assms by (auto simp: le_iff_add)

lemma coords_new_pose:
  assumes "k < 3"
  shows "coords (position (new_pose fa sp centre delta)) ! k = fl_add fa (centre ! k) (delta ! k)"
proof -
  from assms have "k = 0 \<or> k = 1 \<or> k = 2" by arith
  then show ?thesis
    using coords_nth [of "position (new_pose fa sp centre delta)"]
      position_new_pose [of fa sp centre delta]
    by auto
qed

lemma update2_first:
  assumes "ka < length zs" "ka \<noteq> kb"
  shows "zs[ka := u, kb := v] ! ka = u"
  using assms by simp

lemma update2_second:
  assumes "kb < length zs"
  shows "zs[ka := u, kb := v] ! kb = v"
  using assms by simp

lemma delta_of_axes:
  assumes "ka < 3" "kb < 3" "ka \<noteq> kb"
  shows "delta_of fa radius ka kb c s ! ka = fl_mul fa radius c"
    and "delta_of fa radius ka kb c s ! kb = fl_mul fa radius s"
proof -
  show "delta_of fa radius ka kb c s ! ka = fl_mul fa radius c"
    unfolding delta_of_def by (rule update2_first) (use assms in simp_all)
  show "delta_of fa radius ka kb c s ! kb = fl_mul fa radius s"
    unfolding delta_of_def by (rule update2_second) (use assms in simp_all)
qed

lemma axes_of_valid_plane:
  assumes "valid_plane plane" "axis (plane ! 0) = Some ka" "axis (plane ! 1) = Some kb"
  shows "ka < 3" "kb < 3" "ka \<noteq> kb" "2 \<le> length plane"
  using assms by (auto simp: valid_plane_def axis_def)

section \<open>The calls of plan\_cartesian\_circle\<close>

lemma plan_after_compute:
  assumes "mg_set_max_velocity_scaling_factor move_group velocity_scale = Inr u"
    and "mg_get_current_pose move_group = Inr start_pose"
    and "build_waypoints fa [start_pose] 0 radius n_points plane = Inr (ws, h)"
    and "mg_compute_cartesian_path move_group (poses_of h ws) eef_step jump_threshold True =
           Inr (traj, fraction)"
  shows "plan_cartesian_circle fa move_group radius n_points plane eef_step jump_threshold
           velocity_scale execute completeness_threshold =
         (if execute \<and> fl_ge fraction completeness_threshold
          then ([Set_max_velocity_scaling_factor velocity_scale, Get_current_pose,
                 Compute_cartesian_path (poses_of h ws) eef_step jump_threshold True,
                 Execute traj True],
                case mg_execute move_group traj True of
                  Inl e \<Rightarrow> Inl e
                | Inr u \<Rightarrow> Inr (traj, fraction))
          else ([Set_max_velocity_scaling_factor velocity_scale, Get_current_pose,
                 Compute_cartesian_path (poses_of h ws) eef_step jump_threshold True],
                Inr (traj, fraction)))"
  using assms by (simp add: plan_cartesian_circle_def Let_def split: sum.splits)

lemma plan_generator_raises:
  assumes "mg_set_max_velocity_scaling_factor move_group velocity_scale = Inr u"
    and "mg_get_current_pose move_group = Inr start_pose"
    and "build_waypoints fa [start_pose] 0 radius n_points plane = Inl e"
  shows "plan_cartesian_circle fa move_group radius n_points plane eef_step jump_threshold
           velocity_scale execute completeness_threshold =
         ([Set_max_velocity_scaling_factor velocity_scale, Get_current_pose], Inl e)"
  using assms by (simp add: plan_cartesian_circle_def Let_def)

lemma stub_calls:
  "mg_set_max_velocity_scaling_factor (stub_move_group p fraction) v = Inr ()"
  "mg_get_current_pose (stub_move_group p fraction) = Inr p"
  "mg_compute_cartesian_path (stub_move_group p fraction) waypoints e j a =
     Inr (length waypoints, fraction)"
  "mg_execute (stub_move_group p fraction) traj wait = Inr ()"
  by (simp_all add: stub_move_group_def)

text \<open>The worked call: start \<open>(0, 0, 0)\<close>, radius 1.0, one point, plane xy.\<close>

lemma example_build:
  "\<exists>ws h. build_waypoints double_arith [pose_at 0 0 0] 0 (Finite 1) 1 ''xy'' = Inr (ws, h)
         \<and> length (poses_of h ws) = 2"
proof -
  have len: "2 \<le> length ''xy''" and k: "axis (''xy'' ! 0) = Some 0" "axis (''xy'' ! 1) = Some 1"
    by (simp_all add: axis_def)
  have "\<exists>ws h. build_waypoints double_arith [pose_at 0 0 0] 0 (Finite 1) 1 ''xy'' =
           Inr (ws, h)"
    by (rule build_waypoints_returns [OF len k rounding_bounded_double]) simp_all
  then obtain ws h where
    b: "build_waypoints double_arith [pose_at 0 0 0] 0 (Finite 1) 1 ''xy'' = Inr (ws, h)"
    by blast
  from build_waypoints_Inr [OF b len k(1)]
  have "ws = [length [pose_at 0 0 0] ..< length [pose_at 0 0 0] + length [0..1::int]]"
    by simp
  then have "length (poses_of h ws) = 2" by (simp add: poses_of_def)
  with b show ?thesis by blast
qed

section \<open>The worked runs in double arithmetic\<close>

lemma double_two_pi: "fl_mul double_arith (Finite 2) (Finite math_pi) = Finite (2 * math_pi)"
  by (simp add: double_arith_def math_pi_def)

lemma double_theta:
  "theta_of double_arith 0 1 = Inr (Finite 0)"
  "theta_of double_arith 1 1 = Inr (Finite (2 * math_pi))"
proof -
  have z: "fl_of_int double_arith 0 = Inr (Finite 0)"
    using fl_of_int_small [of 0 double_arith] by simp
  have o: "fl_of_int double_arith 1 = Inr (Finite 1)"
    using fl_of_int_small [of 1 double_arith] by simp
  have m0: "fl_mul double_arith (Finite (2 * math_pi)) (Finite 0) = Finite 0"
    by simp
  have d0: "fl_truediv double_arith (Finite 0) (Finite 1) = Inr (Finite 0)"
    by simp
  show "theta_of double_arith 0 1 = Inr (Finite 0)"
    by (simp only: theta_of_def Let_def z o double_two_pi m0 d0 sum.case)
  have m: "fl_mul double_arith (Finite (2 * math_pi)) (Finite 1) = Finite (2 * math_pi)"
    by (simp add: double_arith_def math_pi_def)
  have d: "fl_truediv double_arith (Finite (2 * math_pi)) (Finite 1) = Inr (Finite (2 * math_pi))"
    by (simp add: double_arith_def math_pi_def)
  show "theta_of double_arith 1 1 = Inr (Finite (2 * math_pi))"
    by (simp only: theta_of_def Let_def z o double_two_pi m d sum.case)
qed

lemma double_cos_sin:
  "fl_cos double_arith (Finite 0) = Inr (Finite 1)"
  "fl_sin double_arith (Finite 0) = Inr (Finite 0)"
  "fl_cos double_arith (Finite (2 * math_pi)) = Inr (Finite 1)"
  "fl_sin double_arith (Finite (2 * math_pi)) = Inr (Finite sin_two_pi)"
  by (simp_all add: double_arith_def math_pi_def)

lemma double_delta:
  "delta_of double_arith (Finite 1) 0 1 (Finite 1) (Finite 0) = [Finite 1, Finite 0, Finite 0]"
  "delta_of double_arith (Finite 1) 0 1 (Finite 1) (Finite sin_two_pi) =
     [Finite 1, Finite sin_two_pi, Finite 0]"
  by (simp_all add: delta_of_def double_arith_def sin_two_pi_def)

lemma range_1: "[0..1::int] = [0, 1]"
  by (simp add: upto.simps)

text \<open>The run of two passes, for a centre list and the start pose at address 0.\<close>

lemma double_run:
  assumes "centre = (coords (position sp))[0 := fl_sub double_arith (coords (position sp) ! 0)
                                                  (Finite 1)]"
  shows "build_waypoints double_arith [sp] 0 (Finite 1) 1 ''xy'' =
           Inr ([1, 2],
                [sp, new_pose double_arith sp centre [Finite 1, Finite 0, Finite 0],
                 new_pose double_arith sp centre [Finite 1, Finite sin_two_pi, Finite 0]])"
proof -
  have len: "2 \<le> length ''xy''" and ka: "axis (''xy'' ! 0) = Some 0"
    and kb: "axis (''xy'' ! 1) = Some 1"
    by (simp_all add: axis_def)
  have p0: "loop_body double_arith 0 (Finite 1) 1 (''xy'' ! 0) (''xy'' ! 1) centre 0 ([sp], []) =
              Inr ([sp] @ [new_pose double_arith ([sp] ! 0) centre
                             (delta_of double_arith (Finite 1) 0 1 (Finite 1) (Finite 0))],
                   [] @ [length [sp]])"
    by (rule loop_body_returns [OF double_theta(1) double_cos_sin(1,2) ka kb])
  have p1: "loop_body double_arith 0 (Finite 1) 1 (''xy'' ! 0) (''xy'' ! 1) centre 1 (h, ws) =
              Inr (h @ [new_pose double_arith (h ! 0) centre
                          (delta_of double_arith (Finite 1) 0 1 (Finite 1) (Finite sin_two_pi))],
                   ws @ [length h])" for h ws
    by (rule loop_body_returns [OF double_theta(2) double_cos_sin(3,4) ka kb])
  have c: "(coords (position ([sp] ! 0)))
             [0 := fl_sub double_arith (coords (position ([sp] ! 0)) ! 0) (Finite 1)] = centre"
    using assms by simp
  show ?thesis
    by (simp only: build_waypoints_loop [OF len ka] c range_1 for_loop.simps p0 p1 sum.case
          prod.case double_delta)
      simp
qed

lemma double_run_origin:
  "build_waypoints double_arith [pose_at 0 0 0] 0 (Finite 1) 1 ''xy'' =
     Inr ([1, 2], [pose_at 0 0 0, pose_at 0 0 0, pose_at 0 sin_two_pi 0])"
proof -
  have c: "[Finite (- 1), Finite 0, Finite 0] =
             (coords (position (pose_at 0 0 0)))
               [0 := fl_sub double_arith (coords (position (pose_at 0 0 0)) ! 0) (Finite 1)]"
    by (simp add: coords_def pose_at_def)
  have w0: "new_pose double_arith (pose_at 0 0 0) [Finite (- 1), Finite 0, Finite 0]
              [Finite 1, Finite 0, Finite 0] = pose_at 0 0 0"
    by (simp add: new_pose_def pose_at_def double_arith_def)
  have w1: "new_pose double_arith (pose_at 0 0 0) [Finite (- 1), Finite 0, Finite 0]
              [Finite 1, Finite sin_two_pi, Finite 0] = pose_at 0 sin_two_pi 0"
    by (simp add: new_pose_def pose_at_def double_arith_def sin_two_pi_def)
  show ?thesis
    by (simp only: double_run [OF c] w0 w1)
qed

lemma double_run_far:
  "build_waypoints double_arith [pose_at (2 ^ 60) 0 0] 0 (Finite 1) 1 ''xy'' =
     Inr ([1, 2], [pose_at (2 ^ 60) 0 0, pose_at (2 ^ 60) 0 0, pose_at (2 ^ 60) sin_two_pi 0])"
proof -
  have c: "[Finite (2 ^ 60), Finite 0, Finite 0] =
             (coords (position (pose_at (2 ^ 60) 0 0)))
               [0 := fl_sub double_arith (coords (position (pose_at (2 ^ 60) 0 0)) ! 0)
                       (Finite 1)]"
    by (simp add: coords_def pose_at_def double_arith_def)
  have w0: "new_pose double_arith (pose_at (2 ^ 60) 0 0) [Finite (2 ^ 60), Finite 0, Finite 0]
              [Finite 1, Finite 0, Finite 0] = pose_at (2 ^ 60) 0 0"
    by (simp add: new_pose_def pose_at_def double_arith_def)
  have w1: "new_pose double_arith (pose_at (2 ^ 60) 0 0) [Finite (2 ^ 60), Finite 0, Finite 0]
              [Finite 1, Finite sin_two_pi, Finite 0] = pose_at (2 ^ 60) sin_two_pi 0"
    by (simp add: new_pose_def pose_at_def double_arith_def sin_two_pi_def)
  show ?thesis
    by (simp only: double_run [OF c] w0 w1)
qed

lemma centre_far:
  "centre_of double_arith (pose_at (2 ^ 60) 0 0) (Finite 1) (''xy'' ! 0) =
     Inr [Finite (2 ^ 60), Finite 0, Finite 0]"
  by (simp add: centre_of_def dict_get_def axis_def coords_def pose_at_def double_arith_def)

text \<open>The run from the origin with the plane \<open>yx\<close>.\<close>

lemma double_run_swapped:
  "build_waypoints double_arith [pose_at 0 0 0] 0 (Finite 1) 1 ''yx'' =
     Inr ([1, 2], [pose_at 0 0 0, pose_at 0 0 0, pose_at sin_two_pi 0 0])"
proof -
  let ?sp = "pose_at 0 0 0"
  let ?centre = "[Finite 0, Finite (- 1), Finite 0]"
  have len: "2 \<le> length ''yx''" and ka: "axis (''yx'' ! 0) = Some 1"
    and kb: "axis (''yx'' ! 1) = Some 0"
    by (simp_all add: axis_def)
  have c: "(coords (position ([?sp] ! 0)))
             [1 := fl_sub double_arith (coords (position ([?sp] ! 0)) ! 1) (Finite 1)] = ?centre"
    by (simp add: coords_def pose_at_def)
  have p0: "loop_body double_arith 0 (Finite 1) 1 (''yx'' ! 0) (''yx'' ! 1) ?centre 0 ([?sp], []) =
              Inr ([?sp] @ [new_pose double_arith ([?sp] ! 0) ?centre
                             (delta_of double_arith (Finite 1) 1 0 (Finite 1) (Finite 0))],
                   [] @ [length [?sp]])"
    by (rule loop_body_returns [OF double_theta(1) double_cos_sin(1,2) ka kb])
  have p1: "loop_body double_arith 0 (Finite 1) 1 (''yx'' ! 0) (''yx'' ! 1) ?centre 1 (h, ws) =
              Inr (h @ [new_pose double_arith (h ! 0) ?centre
                          (delta_of double_arith (Finite 1) 1 0 (Finite 1) (Finite sin_two_pi))],
                   ws @ [length h])" for h ws
    by (rule loop_body_returns [OF double_theta(2) double_cos_sin(3,4) ka kb])
  have d: "delta_of double_arith (Finite 1) 1 0 (Finite 1) (Finite 0) =
             [Finite 0, Finite 1, Finite 0]"
    "delta_of double_arith (Finite 1) 1 0 (Finite 1) (Finite sin_two_pi) =
       [Finite sin_two_pi, Finite 1, Finite 0]"
    by (simp_all add: delta_of_def double_arith_def sin_two_pi_def)
  have w0: "new_pose double_arith ?sp ?centre [Finite 0, Finite 1, Finite 0] = ?sp"
    by (simp add: new_pose_def pose_at_def double_arith_def)
  have w1: "new_pose double_arith ?sp ?centre [Finite sin_two_pi, Finite 1, Finite 0] =
              pose_at sin_two_pi 0 0"
    by (simp add: new_pose_def pose_at_def double_arith_def sin_two_pi_def)
  show ?thesis
    by (simp only: build_waypoints_loop [OF len ka] c range_1 for_loop.simps p0 p1 sum.case
          prod.case d)
      (simp add: w0 w1)
qed

section \<open>Claims about \_build\_waypoints\<close>

text \<open>
  C1, as the code has it: for a live start pose, a valid plane with axis numbers \<open>ka\<close>,
  \<open>kb\<close>, and \<open>1 \<le> n_points \<le> 2 ^ 53\<close> under bounded rounding, the centre the code
  computes is the start position with the float difference \<open>start_a - radius\<close> on axis
  \<open>ka\<close>, the call returns, and for every \<open>i\<close> from \<open>0\<close> to \<open>n_points\<close> the \<open>i\<close>-th
  waypoint has the coordinate \<open>centre_a + radius * cos(theta)\<close> on axis \<open>ka\<close> and
  \<open>centre_b + radius * sin(theta)\<close> on axis \<open>kb\<close>, where \<open>theta\<close> is the float
  \<open>2.0 * math.pi * i / n_points\<close> and every operation is the float operation.
\<close>

theorem waypoint_coordinates:
  assumes "start_pose < length h" "valid_plane plane"
    and "axis (plane ! 0) = Some ka" "axis (plane ! 1) = Some kb"
    and "rounding_bounded fa" "1 \<le> n_points" "n_points \<le> 2 ^ 53"
    and "0 \<le> i" "i \<le> n_points"
  shows "\<exists>centre ws h' t.
           centre_of fa (h ! start_pose) radius (plane ! 0) = Inr centre
         \<and> centre = (coords (position (h ! start_pose)))
                       [ka := fl_sub fa (coords (position (h ! start_pose)) ! ka) radius]
         \<and> build_waypoints fa h start_pose radius n_points plane = Inr (ws, h')
         \<and> theta_of fa i n_points = Inr (Finite t)
         \<and> coords (position (h' ! (ws ! nat i))) ! ka =
               fl_add fa (centre ! ka) (fl_mul fa radius (Finite (libm_cos fa t)))
         \<and> coords (position (h' ! (ws ! nat i))) ! kb =
               fl_add fa (centre ! kb) (fl_mul fa radius (Finite (libm_sin fa t)))"
proof -
  note k = axes_of_valid_plane [OF assms(2,3,4)]
  define centre where "centre = (coords (position (h ! start_pose)))
                         [ka := fl_sub fa (coords (position (h ! start_pose)) ! ka) radius]"
  have c: "centre_of fa (h ! start_pose) radius (plane ! 0) = Inr centre"
    by (simp only: centre_of_closed [OF assms(3)] centre_def)
  from build_waypoints_returns [OF k(4) assms(3,4,5,6,7)]
  obtain ws h' where b: "build_waypoints fa h start_pose radius n_points plane = Inr (ws, h')"
    by blast
  from build_waypoints_Inr [OF b k(4) assms(3) assms(1)]
  have ws: "ws = [length h ..< length h + length [0..n_points]]"
    and new: "\<forall>k < length [0..n_points]. \<exists>theta c s kb.
              theta_of fa ([0..n_points] ! k) n_points = Inr theta \<and> fl_cos fa theta = Inr c
            \<and> fl_sin fa theta = Inr s \<and> axis (plane ! 1) = Some kb
            \<and> h' ! (length h + k) =
                new_pose fa (h ! start_pose) centre (delta_of fa radius ka kb c s)"
    unfolding centre_def by blast+
  have idx: "nat i < length [0..n_points]" "[0..n_points] ! nat i = i"
    using assms(8,9) by simp_all
  from theta_of_finite [OF assms(5,8,9,6,7)]
  obtain t where t: "theta_of fa i n_points = Inr (Finite t)" by blast
  from new idx(1) obtain theta c s kb' where
    pass: "theta_of fa ([0..n_points] ! nat i) n_points = Inr theta" "fl_cos fa theta = Inr c"
      "fl_sin fa theta = Inr s" "axis (plane ! 1) = Some kb'"
    and w: "h' ! (length h + nat i) =
              new_pose fa (h ! start_pose) centre (delta_of fa radius ka kb' c s)"
    by blast
  have th: "theta = Finite t" using pass(1) t by (simp add: idx(2))
  have cs: "c = Finite (libm_cos fa t)" "s = Finite (libm_sin fa t)" "kb' = kb"
    using pass(2,3,4) assms(4) by (simp_all add: th)
  have at: "ws ! nat i = length h + nat i"
    using idx(1) by (simp add: ws)
  have ca: "coords (position (h' ! (ws ! nat i))) ! ka =
               fl_add fa (centre ! ka) (fl_mul fa radius (Finite (libm_cos fa t)))"
    by (simp only: at w cs coords_new_pose [OF k(1)] delta_of_axes(1) [OF k(1,2,3)])
  have cb: "coords (position (h' ! (ws ! nat i))) ! kb =
               fl_add fa (centre ! kb) (fl_mul fa radius (Finite (libm_sin fa t)))"
    by (simp only: at w cs coords_new_pose [OF k(2)] delta_of_axes(2) [OF k(1,2,3)])
  show ?thesis
    using c centre_def b t ca cb by blast
qed

theorem waypoint_coordinates_witness:
  "0 < length [pose_at 0 0 0] \<and> valid_plane ''xy''
   \<and> axis (''xy'' ! 0) = Some 0 \<and> axis (''xy'' ! 1) = Some 1
   \<and> rounding_bounded double_arith \<and> (1::int) \<le> 1 \<and> (1::int) \<le> 2 ^ 53
   \<and> (0::int) \<le> 1 \<and> (1::int) \<le> 1
   \<and> (\<exists>centre ws h' t.
           centre_of double_arith ([pose_at 0 0 0] ! 0) (Finite 1) (''xy'' ! 0) = Inr centre
         \<and> centre = (coords (position ([pose_at 0 0 0] ! 0)))
                       [0 := fl_sub double_arith (coords (position ([pose_at 0 0 0] ! 0)) ! 0)
                               (Finite 1)]
         \<and> build_waypoints double_arith [pose_at 0 0 0] 0 (Finite 1) 1 ''xy'' =
             Inr (ws, h')
         \<and> theta_of double_arith 1 1 = Inr (Finite t)
         \<and> coords (position (h' ! (ws ! nat 1))) ! 0 =
               fl_add double_arith (centre ! 0)
                 (fl_mul double_arith (Finite 1) (Finite (libm_cos double_arith t)))
         \<and> coords (position (h' ! (ws ! nat 1))) ! 1 =
               fl_add double_arith (centre ! 1)
                 (fl_mul double_arith (Finite 1) (Finite (libm_sin double_arith t))))"
proof -
  have hyps: "0 < length [pose_at 0 0 0]" "valid_plane ''xy''"
    "axis (''xy'' ! 0) = Some 0" "axis (''xy'' ! 1) = Some 1"
    "rounding_bounded double_arith" "(1::int) \<le> 1" "(1::int) \<le> 2 ^ 53"
    "(0::int) \<le> 1" "(1::int) \<le> 1"
    by (simp_all add: valid_plane_def axis_def rounding_bounded_double)
  from hyps waypoint_coordinates [OF hyps, of "Finite 1"] show ?thesis
    by - (intro conjI, assumption+)
qed

text \<open>
  The claim C1 as stated fails: read over the reals, the formula gives \<open>y = 0\<close> at the
  angle \<open>2 pi\<close>, and the code gives \<open>-2.4492935982947064e-16\<close> (start \<open>(0, 0, 0)\<close>,
  radius \<open>1.0\<close>, \<open>n_points = 1\<close>, plane xy, waypoint 1).
\<close>

theorem waypoint_formula_inexact:
  "build_waypoints double_arith [pose_at 0 0 0] 0 (Finite 1) 1 ''xy'' =
     Inr ([1, 2], [pose_at 0 0 0, pose_at 0 0 0, pose_at 0 sin_two_pi 0])
   \<and> coords (position ([pose_at 0 0 0, pose_at 0 0 0, pose_at 0 sin_two_pi 0] ! ([1, 2] ! nat 1)))
       ! 1 \<noteq> Finite (0 + 1 * sin (2 * pi * real_of_int 1 / real_of_int 1))"
proof -
  have "coords (position (pose_at 0 sin_two_pi 0)) ! 1 = Finite sin_two_pi"
    by (simp add: coords_def pose_at_def)
  moreover have "sin_two_pi \<noteq> 0" by (simp add: sin_two_pi_def)
  ultimately show ?thesis
    using double_run_origin by simp
qed







text \<open>
  C4: for a live start pose and a valid plane, every waypoint a call returns is a new
  object, distinct from the start pose and from the other waypoints; its orientation is
  the start pose's, and the coordinate on the axis the plane does not name (z for xy,
  x for yz, y for xz) is the start pose's. The objects that existed before the call,
  the start pose among them, are unchanged. A call with \<open>1 \<le> n_points \<le> 2 ^ 53\<close> under
  bounded rounding does return.
\<close>

theorem waypoints_are_copies:
  assumes "start_pose < length h" "valid_plane plane"
  shows "(rounding_bounded fa \<and> 1 \<le> n_points \<and> n_points \<le> 2 ^ 53 \<longrightarrow>
            (\<exists>ws h'. build_waypoints fa h start_pose radius n_points plane = Inr (ws, h')))
       \<and> (\<forall>ws h'. build_waypoints fa h start_pose radius n_points plane = Inr (ws, h') \<longrightarrow>
             take (length h) h' = h
           \<and> h' ! start_pose = h ! start_pose
           \<and> distinct ws
           \<and> (\<forall>w \<in> set ws.
                 length h \<le> w \<and> w < length h' \<and> w \<noteq> start_pose
               \<and> orientation (h' ! w) = orientation (h ! start_pose)
               \<and> (plane = ''xy'' \<longrightarrow>
                     pos_z (position (h' ! w)) = pos_z (position (h ! start_pose)))
               \<and> (plane = ''yz'' \<longrightarrow>
                     pos_x (position (h' ! w)) = pos_x (position (h ! start_pose)))
               \<and> (plane = ''xz'' \<longrightarrow>
                     pos_y (position (h' ! w)) = pos_y (position (h ! start_pose)))))"
proof (intro conjI impI allI)
  obtain ka kb where ax: "axis (plane ! 0) = Some ka" "axis (plane ! 1) = Some kb"
    "(ka, kb) \<in> {(0, 1), (1, 2), (0, 2)}" "2 \<le> length plane"
    by (rule valid_plane_setup [OF assms(2)])
  {
    assume "rounding_bounded fa \<and> 1 \<le> n_points \<and> n_points \<le> 2 ^ 53"
    then show "\<exists>ws h'. build_waypoints fa h start_pose radius n_points plane = Inr (ws, h')"
      by (intro build_waypoints_returns [OF ax(4) ax(1,2)]) simp_all
  }
  fix ws h'
  assume b: "build_waypoints fa h start_pose radius n_points plane = Inr (ws, h')"
  let ?centre = "(coords (position (h ! start_pose)))
                   [ka := fl_sub fa (coords (position (h ! start_pose)) ! ka) radius]"
  from build_waypoints_Inr [OF b ax(4) ax(1) assms(1)]
  have ws: "ws = [length h ..< length h + length [0..n_points]]"
    and len: "length h' = length h + length [0..n_points]"
    and old: "take (length h) h' = h"
    and new: "\<forall>k < length [0..n_points]. \<exists>theta c s kb.
              theta_of fa ([0..n_points] ! k) n_points = Inr theta \<and> fl_cos fa theta = Inr c
            \<and> fl_sin fa theta = Inr s \<and> axis (plane ! 1) = Some kb
            \<and> h' ! (length h + k) =
                new_pose fa (h ! start_pose) ?centre (delta_of fa radius ka kb c s)"
    by blast+
  show "take (length h) h' = h" by (rule old)
  show "h' ! start_pose = h ! start_pose"
  proof -
    have "take (length h) h' ! start_pose = h' ! start_pose"
      using assms(1) by simp
    then show ?thesis by (simp only: old)
  qed
  show "distinct ws" by (simp add: ws)
  show "\<forall>w \<in> set ws.
                 length h \<le> w \<and> w < length h' \<and> w \<noteq> start_pose
               \<and> orientation (h' ! w) = orientation (h ! start_pose)
               \<and> (plane = ''xy'' \<longrightarrow>
                     pos_z (position (h' ! w)) = pos_z (position (h ! start_pose)))
               \<and> (plane = ''yz'' \<longrightarrow>
                     pos_x (position (h' ! w)) = pos_x (position (h ! start_pose)))
               \<and> (plane = ''xz'' \<longrightarrow>
                     pos_y (position (h' ! w)) = pos_y (position (h ! start_pose)))"
  proof
    fix w assume wm: "w \<in> set ws"
    then obtain k where k: "w = length h + k" "k < length [0..n_points]"
      unfolding ws by (rule range_member)
    from new k(2) obtain c s where
      w: "h' ! w = new_pose fa (h ! start_pose) ?centre (delta_of fa radius ka kb c s)"
      unfolding k(1) using ax(2) by fastforce
    have range: "length h \<le> w" "w < length h'" "w \<noteq> start_pose"
      using k assms(1) len by simp_all
    have ori: "orientation (h' ! w) = orientation (h ! start_pose)"
      by (simp only: w orientation_new_pose)
    have third: "fl_add fa (?centre ! kc) (delta_of fa radius ka kb c s ! kc) =
                   coords (position (h ! start_pose)) ! kc"
      if "kc < 3" "kc \<noteq> ka" "kc \<noteq> kb" for kc
      by (rule new_pose_third_axis [OF that])
    have xy: "pos_z (position (h' ! w)) = pos_z (position (h ! start_pose))"
      if p: "plane = ''xy''"
    proof -
      have "ka = 0" "kb = 1" using ax(1,2) by (simp_all add: p axis_def)
      then have "fl_add fa (?centre ! 2) (delta_of fa radius ka kb c s ! 2) =
                   coords (position (h ! start_pose)) ! 2"
        by (intro third) simp_all
      then show ?thesis by (simp only: w position_new_pose coords_nth)
    qed
    have yz: "pos_x (position (h' ! w)) = pos_x (position (h ! start_pose))"
      if p: "plane = ''yz''"
    proof -
      have "ka = 1" "kb = 2" using ax(1,2) by (simp_all add: p axis_def)
      then have "fl_add fa (?centre ! 0) (delta_of fa radius ka kb c s ! 0) =
                   coords (position (h ! start_pose)) ! 0"
        by (intro third) simp_all
      then show ?thesis by (simp only: w position_new_pose coords_nth)
    qed
    have xz: "pos_y (position (h' ! w)) = pos_y (position (h ! start_pose))"
      if p: "plane = ''xz''"
    proof -
      have "ka = 0" "kb = 2" using ax(1,2) by (simp_all add: p axis_def)
      then have "fl_add fa (?centre ! 1) (delta_of fa radius ka kb c s ! 1) =
                   coords (position (h ! start_pose)) ! 1"
        by (intro third) simp_all
      then show ?thesis by (simp only: w position_new_pose coords_nth)
    qed
    show "length h \<le> w \<and> w < length h' \<and> w \<noteq> start_pose
               \<and> orientation (h' ! w) = orientation (h ! start_pose)
               \<and> (plane = ''xy'' \<longrightarrow>
                     pos_z (position (h' ! w)) = pos_z (position (h ! start_pose)))
               \<and> (plane = ''yz'' \<longrightarrow>
                     pos_x (position (h' ! w)) = pos_x (position (h ! start_pose)))
               \<and> (plane = ''xz'' \<longrightarrow>
                     pos_y (position (h' ! w)) = pos_y (position (h ! start_pose)))"
      using range ori xy yz xz by (intro conjI impI)
  qed
qed

theorem waypoints_are_copies_witness:
  "0 < length [pose_at 0 0 0] \<and> valid_plane ''xy'' \<and> rounding_bounded double_arith
   \<and> (1::int) \<le> 1 \<and> (1::int) \<le> 2 ^ 53
   \<and> (\<exists>ws h'. build_waypoints double_arith [pose_at 0 0 0] 0 (Finite 1) 1 ''xy'' =
                  Inr (ws, h')
           \<and> take (length [pose_at 0 0 0]) h' = [pose_at 0 0 0]
           \<and> h' ! 0 = [pose_at 0 0 0] ! 0
           \<and> distinct ws
           \<and> (\<forall>w \<in> set ws.
                 length [pose_at 0 0 0] \<le> w \<and> w < length h' \<and> w \<noteq> 0
               \<and> orientation (h' ! w) = orientation ([pose_at 0 0 0] ! 0)
               \<and> pos_z (position (h' ! w)) = pos_z (position ([pose_at 0 0 0] ! 0))))"
proof -
  have live: "0 < length [pose_at 0 0 0]" and vp: "valid_plane ''xy''"
    and n: "(1::int) \<le> 1" "(1::int) \<le> 2 ^ 53"
    by (simp_all add: valid_plane_def)
  note t = waypoints_are_copies [OF live vp, of double_arith 1 "Finite 1"]
  from t rounding_bounded_double n obtain ws h' where
    b: "build_waypoints double_arith [pose_at 0 0 0] 0 (Finite 1) 1 ''xy'' = Inr (ws, h')"
    by blast
  from t b have p: "take (length [pose_at 0 0 0]) h' = [pose_at 0 0 0]
           \<and> h' ! 0 = [pose_at 0 0 0] ! 0
           \<and> distinct ws
           \<and> (\<forall>w \<in> set ws.
                 length [pose_at 0 0 0] \<le> w \<and> w < length h' \<and> w \<noteq> 0
               \<and> orientation (h' ! w) = orientation ([pose_at 0 0 0] ! 0)
               \<and> pos_z (position (h' ! w)) = pos_z (position ([pose_at 0 0 0] ! 0)))"
    by blast
  from b p have "\<exists>ws h'. build_waypoints double_arith [pose_at 0 0 0] 0 (Finite 1) 1 ''xy'' =
                  Inr (ws, h')
           \<and> take (length [pose_at 0 0 0]) h' = [pose_at 0 0 0]
           \<and> h' ! 0 = [pose_at 0 0 0] ! 0
           \<and> distinct ws
           \<and> (\<forall>w \<in> set ws.
                 length [pose_at 0 0 0] \<le> w \<and> w < length h' \<and> w \<noteq> 0
               \<and> orientation (h' ! w) = orientation ([pose_at 0 0 0] ! 0)
               \<and> pos_z (position (h' ! w)) = pos_z (position ([pose_at 0 0 0] ! 0)))"
    by blast
  with live vp rounding_bounded_double n show ?thesis by (intro conjI)
qed

text \<open>
  C6, as the code has it: for a valid plane, \<open>n_points = 0\<close> makes the first pass of the
  loop divide by zero, and the call raises ZeroDivisionError, whatever the start pose,
  the radius and the float arithmetic. No check of \<open>n_points\<close> precedes the division.
\<close>

theorem build_waypoints_zero_n_points:
  assumes "valid_plane plane"
  shows "build_waypoints fa h start_pose radius 0 plane = Inl ZeroDivisionError"
proof -
  obtain ka kb where ax: "axis (plane ! 0) = Some ka" "2 \<le> length plane"
    using valid_plane_setup [OF assms(1)] by blast
  show ?thesis by (rule build_waypoints_zero [OF ax(2) ax(1)])
qed

theorem build_waypoints_zero_n_points_witness:
  "valid_plane ''yz''
   \<and> build_waypoints double_arith [pose_at 0 0 0] 0 (Finite 1) 0 ''yz'' =
       Inl ZeroDivisionError"
  using build_waypoints_zero_n_points [of "''yz''" double_arith "[pose_at 0 0 0]" 0 "Finite 1"]
  by (simp add: valid_plane_def)

text \<open>
  The claim C6 as stated fails: at \<open>n_points = 0\<close> the exception is the
  ZeroDivisionError of the division itself, not an invalid-argument error (ValueError).
\<close>

theorem zero_n_points_not_invalid_argument:
  "build_waypoints double_arith [pose_at 0 0 0] 0 (Finite 1) 0 ''xy'' =
     Inl ZeroDivisionError
   \<and> build_waypoints double_arith [pose_at 0 0 0] 0 (Finite 1) 0 ''xy'' \<noteq> Inl ValueError"
proof -
  have "build_waypoints double_arith [pose_at 0 0 0] 0 (Finite 1) 0 ''xy'' =
          Inl ZeroDivisionError"
    by (rule build_waypoints_zero [where ka = 0]) (simp_all add: axis_def)
  then show ?thesis by simp
qed

text \<open>
  C7, as the code has it: with \<open>n_points \<ge> 1\<close>, a plane of fewer than two characters
  raises IndexError (line 25); a plane whose first character is not a key of \<open>axis\<close>
  raises KeyError (line 31); with a first character that is a key, \<open>n_points\<close> from
  \<open>2 ^ 1024 - 2 ^ 970\<close> on raises OverflowError (line 36), and up to \<open>2 ^ 53\<close> a second
  character that is not a key raises KeyError (line 41); every other plane is accepted
  and gives, up to \<open>2 ^ 53\<close> under bounded rounding, \<open>n_points + 1\<close> waypoints. Only the
  first two characters are looked at, in any order, and nothing compares the plane with
  the three documented values.
\<close>

theorem plane_errors:
  assumes "start_pose < length h" "1 \<le> n_points"
  shows "(length plane < 2 \<longrightarrow>
            build_waypoints fa h start_pose radius n_points plane = Inl IndexError)
       \<and> (2 \<le> length plane \<and> axis (plane ! 0) = None \<longrightarrow>
            build_waypoints fa h start_pose radius n_points plane = Inl KeyError)
       \<and> (2 \<le> length plane \<and> axis (plane ! 0) \<noteq> None \<and> 2 ^ 1024 - 2 ^ 970 \<le> n_points \<longrightarrow>
            build_waypoints fa h start_pose radius n_points plane = Inl OverflowError)
       \<and> (2 \<le> length plane \<and> axis (plane ! 0) \<noteq> None \<and> axis (plane ! 1) = None
            \<and> n_points \<le> 2 ^ 53 \<longrightarrow>
            build_waypoints fa h start_pose radius n_points plane = Inl KeyError)
       \<and> (2 \<le> length plane \<and> axis (plane ! 0) \<noteq> None \<and> axis (plane ! 1) \<noteq> None
            \<and> n_points \<le> 2 ^ 53 \<and> rounding_bounded fa \<longrightarrow>
            (\<exists>ws h'. build_waypoints fa h start_pose radius n_points plane = Inr (ws, h')
                   \<and> int (length ws) = n_points + 1))"
proof (intro conjI impI)
  assume "length plane < 2"
  then show "build_waypoints fa h start_pose radius n_points plane = Inl IndexError"
    by (rule build_waypoints_short_plane)
next
  assume "2 \<le> length plane \<and> axis (plane ! 0) = None"
  then show "build_waypoints fa h start_pose radius n_points plane = Inl KeyError"
    by (simp add: build_waypoints_bad_first)
next
  assume a: "2 \<le> length plane \<and> axis (plane ! 0) \<noteq> None \<and> 2 ^ 1024 - 2 ^ 970 \<le> n_points"
  then obtain ka where "axis (plane ! 0) = Some ka" by auto
  with a show "build_waypoints fa h start_pose radius n_points plane = Inl OverflowError"
    by (intro build_waypoints_overflow [where ka = ka]) simp_all
next
  assume a: "2 \<le> length plane \<and> axis (plane ! 0) \<noteq> None \<and> axis (plane ! 1) = None
               \<and> n_points \<le> 2 ^ 53"
  then obtain ka where "axis (plane ! 0) = Some ka" by auto
  with a assms(2) show "build_waypoints fa h start_pose radius n_points plane = Inl KeyError"
    by (intro build_waypoints_bad_second [where ka = ka]) simp_all
next
  assume a: "2 \<le> length plane \<and> axis (plane ! 0) \<noteq> None \<and> axis (plane ! 1) \<noteq> None
               \<and> n_points \<le> 2 ^ 53 \<and> rounding_bounded fa"
  then obtain ka kb where k: "axis (plane ! 0) = Some ka" "axis (plane ! 1) = Some kb"
    by auto
  have len: "2 \<le> length plane" and le: "n_points \<le> 2 ^ 53" and rb: "rounding_bounded fa"
    using a by simp_all
  from build_waypoints_returns [OF len k rb assms(2) le]
  obtain ws h' where b: "build_waypoints fa h start_pose radius n_points plane = Inr (ws, h')"
    by blast
  from build_waypoints_Inr [OF b len k(1) assms(1)]
  have "ws = [length h ..< length h + length [0..n_points]]" by blast
  then have "int (length ws) = n_points + 1"
    using assms(2) by simp
  with b show "\<exists>ws h'. build_waypoints fa h start_pose radius n_points plane = Inr (ws, h')
                   \<and> int (length ws) = n_points + 1"
    by blast
qed

theorem plane_errors_witness:
  "0 < length [pose_at 0 0 0] \<and> (1::int) \<le> 1 \<and> (1::int) \<le> 2 ^ 53
   \<and> (1::int) \<le> 2 ^ 1024 \<and> rounding_bounded double_arith
   \<and> build_waypoints double_arith [pose_at 0 0 0] 0 (Finite 1) 1 ''x'' = Inl IndexError
   \<and> build_waypoints double_arith [pose_at 0 0 0] 0 (Finite 1) 1 ''qx'' = Inl KeyError
   \<and> build_waypoints double_arith [pose_at 0 0 0] 0 (Finite 1) (2 ^ 1024) ''xq'' =
       Inl OverflowError
   \<and> build_waypoints double_arith [pose_at 0 0 0] 0 (Finite 1) 1 ''xq'' = Inl KeyError
   \<and> (\<exists>ws h'. build_waypoints double_arith [pose_at 0 0 0] 0 (Finite 1) 1 ''zy'' =
                  Inr (ws, h')
          \<and> int (length ws) = 1 + 1)"
proof -
  have live: "0 < length [pose_at 0 0 0]" and n: "(1::int) \<le> 1" and big: "(1::int) \<le> 2 ^ 1024"
    by simp_all
  note short = plane_errors [OF live n, of "''x''" double_arith "Finite 1"]
  note first = plane_errors [OF live n, of "''qx''" double_arith "Finite 1"]
  note over = plane_errors [OF live big, of "''xq''" double_arith "Finite 1"]
  note second = plane_errors [OF live n, of "''xq''" double_arith "Finite 1"]
  note good = plane_errors [OF live n, of "''zy''" double_arith "Finite 1"]
  have 1: "build_waypoints double_arith [pose_at 0 0 0] 0 (Finite 1) 1 ''x'' =
             Inl IndexError"
    using short by simp
  have 2: "build_waypoints double_arith [pose_at 0 0 0] 0 (Finite 1) 1 ''qx'' =
             Inl KeyError"
    using first by (simp add: axis_def)
  have 3: "build_waypoints double_arith [pose_at 0 0 0] 0 (Finite 1) (2 ^ 1024) ''xq'' =
             Inl OverflowError"
    using over by (simp add: axis_def)
  have 4: "build_waypoints double_arith [pose_at 0 0 0] 0 (Finite 1) 1 ''xq'' =
             Inl KeyError"
    using second by (simp add: axis_def)
  have 5: "\<exists>ws h'. build_waypoints double_arith [pose_at 0 0 0] 0 (Finite 1) 1 ''zy'' =
                  Inr (ws, h')
          \<and> int (length ws) = 1 + 1"
    using good rounding_bounded_double by (simp add: axis_def)
  show ?thesis
    using 1 2 3 4 5 rounding_bounded_double by simp
qed

text \<open>
  The claim C7 as stated fails: the plane \<open>yx\<close> is none of xy, yz, xz, and the call
  raises nothing: from the start \<open>(0, 0, 0)\<close> with radius \<open>1.0\<close> and \<open>n_points = 1\<close> it
  returns the two waypoints \<open>(0, 0, 0)\<close> and \<open>(-2.4492935982947064e-16, 0, 0)\<close>.
\<close>

theorem swapped_plane_accepted:
  "\<not> valid_plane ''yx''
   \<and> build_waypoints double_arith [pose_at 0 0 0] 0 (Finite 1) 1 ''yx'' =
       Inr ([1, 2], [pose_at 0 0 0, pose_at 0 0 0, pose_at sin_two_pi 0 0])"
  using double_run_swapped by (simp add: valid_plane_def)

text \<open>
  C9, as the code has it: for a live start pose and a valid plane, \<open>radius = 0.0\<close> and
  \<open>1 \<le> n_points \<le> 2 ^ 53\<close> under bounded rounding raise nothing and return
  \<open>n_points + 1\<close> waypoints, each with the position and the orientation of the start
  pose; from \<open>n_points = 2 ^ 1024 - 2 ^ 970\<close> on the call raises OverflowError.
\<close>

theorem zero_radius_degenerate:
  assumes "start_pose < length h" "valid_plane plane"
  shows "(rounding_bounded fa \<and> 1 \<le> n_points \<and> n_points \<le> 2 ^ 53 \<longrightarrow>
            (\<exists>ws h'. build_waypoints fa h start_pose (Finite 0) n_points plane = Inr (ws, h')
                 \<and> int (length ws) = n_points + 1
                 \<and> (\<forall>w \<in> set ws. position (h' ! w) = position (h ! start_pose)
                                  \<and> orientation (h' ! w) = orientation (h ! start_pose))))
       \<and> (2 ^ 1024 - 2 ^ 970 \<le> n_points \<longrightarrow>
            build_waypoints fa h start_pose (Finite 0) n_points plane = Inl OverflowError)"
proof (intro conjI impI)
  obtain ka kb where ax: "axis (plane ! 0) = Some ka" "axis (plane ! 1) = Some kb"
    "(ka, kb) \<in> {(0, 1), (1, 2), (0, 2)}" "2 \<le> length plane"
    by (rule valid_plane_setup [OF assms(2)])
  {
    assume "2 ^ 1024 - 2 ^ 970 \<le> n_points"
    then show "build_waypoints fa h start_pose (Finite 0) n_points plane = Inl OverflowError"
      by (rule build_waypoints_overflow [OF ax(4) ax(1)])
  }
  assume a: "rounding_bounded fa \<and> 1 \<le> n_points \<and> n_points \<le> 2 ^ 53"
  then have rb: "rounding_bounded fa" and n1: "1 \<le> n_points" and n2: "n_points \<le> 2 ^ 53"
    by simp_all
  from build_waypoints_returns [OF ax(4) ax(1,2) rb n1 n2]
  obtain ws h' where
    b: "build_waypoints fa h start_pose (Finite 0) n_points plane = Inr (ws, h')"
    by blast
  let ?centre = "(coords (position (h ! start_pose)))
                   [ka := fl_sub fa (coords (position (h ! start_pose)) ! ka) (Finite 0)]"
  from build_waypoints_Inr [OF b ax(4) ax(1) assms(1)]
  have ws: "ws = [length h ..< length h + length [0..n_points]]"
    and new: "\<forall>k < length [0..n_points]. \<exists>theta c s kb.
              theta_of fa ([0..n_points] ! k) n_points = Inr theta \<and> fl_cos fa theta = Inr c
            \<and> fl_sin fa theta = Inr s \<and> axis (plane ! 1) = Some kb
            \<and> h' ! (length h + k) =
                new_pose fa (h ! start_pose) ?centre (delta_of fa (Finite 0) ka kb c s)"
    by blast+
  have len: "int (length ws) = n_points + 1"
    using n1 by (simp add: ws)
  have each: "h' ! w = h ! start_pose" if wm: "w \<in> set ws" for w
  proof -
    from wm obtain k where k: "w = length h + k" "k < length [0..n_points]"
      unfolding ws by (rule range_member)
    from new k(2) obtain theta c s kb' where
      pass: "theta_of fa ([0..n_points] ! k) n_points = Inr theta" "fl_cos fa theta = Inr c"
        "fl_sin fa theta = Inr s"
      and w: "h' ! w = new_pose fa (h ! start_pose) ?centre (delta_of fa (Finite 0) ka kb' c s)"
      unfolding k(1) by blast
    have idx: "0 \<le> [0..n_points] ! k" "[0..n_points] ! k \<le> n_points"
      using k(2) by (simp_all add: nth_upto)
    from theta_of_finite [OF rb idx n1 n2] pass(1)
    obtain t where t: "theta = Finite t" by auto
    have cs: "c = Finite (libm_cos fa t)" "s = Finite (libm_sin fa t)"
      using pass(2,3) by (simp_all add: t)
    show ?thesis
      by (simp only: w cs new_pose_zero_radius)
  qed
  have "\<forall>w \<in> set ws. position (h' ! w) = position (h ! start_pose)
                                  \<and> orientation (h' ! w) = orientation (h ! start_pose)"
    using each by simp
  with b len show "\<exists>ws h'. build_waypoints fa h start_pose (Finite 0) n_points plane = Inr (ws, h')
                 \<and> int (length ws) = n_points + 1
                 \<and> (\<forall>w \<in> set ws. position (h' ! w) = position (h ! start_pose)
                                  \<and> orientation (h' ! w) = orientation (h ! start_pose))"
    by blast
qed

theorem zero_radius_degenerate_witness:
  "0 < length [pose_at 0 0 0] \<and> valid_plane ''xz'' \<and> rounding_bounded double_arith
   \<and> (1::int) \<le> 1 \<and> (1::int) \<le> 2 ^ 53 \<and> (2::int) ^ 1024 - 2 ^ 970 \<le> 2 ^ 1024
   \<and> (\<exists>ws h'. build_waypoints double_arith [pose_at 0 0 0] 0 (Finite 0) 1 ''xz'' = Inr (ws, h')
           \<and> int (length ws) = 1 + 1
           \<and> (\<forall>w \<in> set ws. position (h' ! w) = position ([pose_at 0 0 0] ! 0)
                            \<and> orientation (h' ! w) = orientation ([pose_at 0 0 0] ! 0)))
   \<and> build_waypoints double_arith [pose_at 0 0 0] 0 (Finite 0) (2 ^ 1024) ''xz'' =
       Inl OverflowError"
proof -
  have live: "0 < length [pose_at 0 0 0]" and vp: "valid_plane ''xz''"
    and n: "(1::int) \<le> 1" "(1::int) \<le> 2 ^ 53" and big: "(2::int) ^ 1024 - 2 ^ 970 \<le> 2 ^ 1024"
    by (simp_all add: valid_plane_def)
  note small = zero_radius_degenerate [OF live vp, of double_arith 1]
  note large = zero_radius_degenerate [OF live vp, of double_arith "2 ^ 1024"]
  have 1: "\<exists>ws h'. build_waypoints double_arith [pose_at 0 0 0] 0 (Finite 0) 1 ''xz'' = Inr (ws, h')
           \<and> int (length ws) = 1 + 1
           \<and> (\<forall>w \<in> set ws. position (h' ! w) = position ([pose_at 0 0 0] ! 0)
                            \<and> orientation (h' ! w) = orientation ([pose_at 0 0 0] ! 0))"
    using small rounding_bounded_double n by blast
  have 2: "build_waypoints double_arith [pose_at 0 0 0] 0 (Finite 0) (2 ^ 1024) ''xz'' =
       Inl OverflowError"
    using large big by blast
  from live vp rounding_bounded_double n big 1 2 show ?thesis by (intro conjI)
qed

text \<open>
  The claim C9 as stated fails: at \<open>n_points = 2 ^ 1024\<close> the call raises OverflowError,
  the int being too large to convert to float in line 36.
\<close>

theorem zero_radius_overflow:
  "build_waypoints double_arith [pose_at 0 0 0] 0 (Finite 0) (2 ^ 1024) ''xy'' =
     Inl OverflowError"
  by (rule build_waypoints_overflow [where ka = 0]) (simp_all add: axis_def)

text \<open>
  C10: for a valid plane and every negative \<open>n_points\<close>, \<open>_build_waypoints\<close> raises
  nothing and returns the empty list, leaving the heap as it was: the loop body, and
  with it the division, is never entered. The length is then \<open>n_points + 1\<close> only at
  \<open>n_points = -1\<close>, so the length property does not extend below \<open>n_points = 1\<close>.
\<close>

theorem build_waypoints_negative_n_points:
  assumes "valid_plane plane" "n_points \<le> - 1"
  shows "build_waypoints fa h start_pose radius n_points plane = Inr ([], h)
         \<and> (n_points \<noteq> - 1 \<longrightarrow> int (length ([] :: addr list)) \<noteq> n_points + 1)"
proof -
  obtain ka kb where ax: "axis (plane ! 0) = Some ka" "2 \<le> length plane"
    using valid_plane_setup [OF assms(1)] by blast
  have neg: "n_points < 0" using assms(2) by simp
  show ?thesis
    using build_waypoints_negative [OF neg ax(2) ax(1)] assms(2) by simp
qed

theorem build_waypoints_negative_n_points_witness:
  "valid_plane ''xy'' \<and> (- 3 :: int) \<le> - 1
   \<and> build_waypoints double_arith [pose_at 0 0 0] 0 (Finite 1) (- 3) ''xy'' =
       Inr ([], [pose_at 0 0 0])"
  using build_waypoints_negative_n_points
    [of "''xy''" "- 3" double_arith "[pose_at 0 0 0]" 0 "Finite 1"]
  by (simp add: valid_plane_def)

section \<open>Claims about plan\_cartesian\_circle\<close>

text \<open>
  C5: in a run where the collaborator sets the velocity scale, answers the current
  pose and computes a path \<open>(traj, fraction)\<close> for the waypoints, the calls to
  \<open>execute\<close> are exactly one call \<open>execute(traj, wait=True)\<close> when the argument
  \<open>execute\<close> is true and \<open>fraction >= completeness_threshold\<close>, and none otherwise;
  and the function returns \<open>(traj, fraction)\<close>, whether it executed (and \<open>execute\<close>
  returned) or not. The instances after the theorem are the fractions 0.5 and 0.97
  against the threshold 0.95.
\<close>

theorem execute_gated_by_fraction:
  assumes "mg_set_max_velocity_scaling_factor move_group velocity_scale = Inr ()"
    and "mg_get_current_pose move_group = Inr start_pose"
    and "build_waypoints fa [start_pose] 0 radius n_points plane = Inr (ws, h)"
    and "mg_compute_cartesian_path move_group (poses_of h ws) eef_step jump_threshold True =
           Inr (traj, fraction)"
  shows "filter is_Execute
           (fst (plan_cartesian_circle fa move_group radius n_points plane eef_step
                   jump_threshold velocity_scale execute completeness_threshold)) =
         (if execute \<and> fl_ge fraction completeness_threshold then [Execute traj True] else [])
       \<and> (\<not> (execute \<and> fl_ge fraction completeness_threshold)
            \<or> mg_execute move_group traj True = Inr () \<longrightarrow>
          snd (plan_cartesian_circle fa move_group radius n_points plane eef_step
                 jump_threshold velocity_scale execute completeness_threshold) =
          Inr (traj, fraction))"
  by (auto simp: plan_after_compute [OF assms])

theorem execute_gated_by_fraction_witness:
  "filter is_Execute
     (fst (plan_cartesian_circle double_arith (stub_move_group (pose_at 0 0 0) (Finite (1 / 2)))
             (Finite 1) 1 ''xy'' (Finite (1 / 256)) (Finite 0) (Finite (1 / 4)) True
             (Finite double_0_95))) = []
   \<and> snd (plan_cartesian_circle double_arith (stub_move_group (pose_at 0 0 0) (Finite (1 / 2)))
             (Finite 1) 1 ''xy'' (Finite (1 / 256)) (Finite 0) (Finite (1 / 4)) True
             (Finite double_0_95)) = Inr (2, Finite (1 / 2))
   \<and> filter is_Execute
     (fst (plan_cartesian_circle double_arith (stub_move_group (pose_at 0 0 0) (Finite double_0_97))
             (Finite 1) 1 ''xy'' (Finite (1 / 256)) (Finite 0) (Finite (1 / 4)) True
             (Finite double_0_95))) = [Execute 2 True]
   \<and> snd (plan_cartesian_circle double_arith (stub_move_group (pose_at 0 0 0) (Finite double_0_97))
             (Finite 1) 1 ''xy'' (Finite (1 / 256)) (Finite 0) (Finite (1 / 4)) True
             (Finite double_0_95)) = Inr (2, Finite double_0_97)"
proof -
  from example_build obtain ws h where
    b: "build_waypoints double_arith [pose_at 0 0 0] 0 (Finite 1) 1 ''xy'' = Inr (ws, h)"
    and len: "length (poses_of h ws) = 2"
    by blast
  have cp: "mg_compute_cartesian_path (stub_move_group (pose_at 0 0 0) fraction)
              (poses_of h ws) (Finite (1 / 256)) (Finite 0) True = Inr (2, fraction)"
    for fraction
    by (simp only: stub_calls len)
  note low = execute_gated_by_fraction [OF stub_calls(1) stub_calls(2) b cp,
      where velocity_scale = "Finite (1 / 4)" and execute = True
        and completeness_threshold = "Finite double_0_95" and fraction = "Finite (1 / 2)"]
  note high = execute_gated_by_fraction [OF stub_calls(1) stub_calls(2) b cp,
      where velocity_scale = "Finite (1 / 4)" and execute = True
        and completeness_threshold = "Finite double_0_95" and fraction = "Finite double_0_97"]
  show ?thesis
    using low high by (simp add: stub_calls double_0_95_def double_0_97_def)
qed

text \<open>
  C8, as the code has it: when the waypoint generator raises, the velocity scale has
  been set and the current pose has been read, in this order, since the start pose is
  what \<open>get_current_pose\<close> answers; the path computation and \<open>execute\<close> are not called,
  and the exception of the generator is what the function raises.
\<close>

theorem generator_error_after_two_calls:
  assumes "mg_set_max_velocity_scaling_factor move_group velocity_scale = Inr ()"
    and "mg_get_current_pose move_group = Inr start_pose"
    and "build_waypoints fa [start_pose] 0 radius n_points plane = Inl e"
  shows "plan_cartesian_circle fa move_group radius n_points plane eef_step jump_threshold
           velocity_scale execute completeness_threshold =
         ([Set_max_velocity_scaling_factor velocity_scale, Get_current_pose], Inl e)"
  by (rule plan_generator_raises [OF assms])

theorem generator_error_after_two_calls_witness:
  "plan_cartesian_circle double_arith (stub_move_group (pose_at 0 0 0) (Finite double_0_97))
     (Finite 1) 1 ''ab'' (Finite (1 / 256)) (Finite 0) (Finite (1 / 4)) True
     (Finite double_0_95) =
   ([Set_max_velocity_scaling_factor (Finite (1 / 4)), Get_current_pose], Inl KeyError)"
proof -
  have b: "build_waypoints double_arith [pose_at 0 0 0] 0 (Finite 1) 1 ''ab'' =
             Inl KeyError"
    by (rule build_waypoints_bad_first) (simp_all add: axis_def)
  show ?thesis
    by (rule generator_error_after_two_calls [OF stub_calls(1) stub_calls(2) b])
qed

text \<open>
  The claim C8 as stated fails: with \<open>n_points = 0\<close> two collaborator calls are made
  before the exception.
\<close>

theorem collaborator_called_before_error:
  "plan_cartesian_circle double_arith (stub_move_group (pose_at 0 0 0) (Finite double_0_97))
     (Finite 1) 0 ''xy'' (Finite (1 / 256)) (Finite 0) (Finite (1 / 4)) True
     (Finite double_0_95) =
   ([Set_max_velocity_scaling_factor (Finite (1 / 4)), Get_current_pose],
    Inl ZeroDivisionError)"
proof -
  have b: "build_waypoints double_arith [pose_at 0 0 0] 0 (Finite 1) 0 ''xy'' =
             Inl ZeroDivisionError"
    by (rule build_waypoints_zero [where ka = 0]) (simp_all add: axis_def)
  show ?thesis
    by (rule plan_generator_raises [OF stub_calls(1) stub_calls(2) b])
qed

end
